theory Spec2Isabelle
  imports Complex_Main "HOL-Library.Multiset"
begin

section \<open>Python values shared by the models\<close>

text \<open>
  Exceptions of the Python source are values: every function that can raise returns
  \<open>error + 'a\<close>, with \<open>Inl\<close> carrying the exception and its message.
  Python integers are \<open>int\<close>; Python floats are idealised as \<open>real\<close>.
\<close>

datatype error =
    ValueError string
  | IndexError string
  | TypeError string
  | ZeroDivisionError
  | AttributeError
  | NotImplementedError string

text \<open>Python sequence indexing \<open>xs[i]\<close>: a negative index counts from the end, an index
  outside \<open>[-len, len)\<close> raises IndexError.\<close>

definition py_index :: "'a list \<Rightarrow> int \<Rightarrow> error + 'a" where
  "py_index xs i =
     (if 0 \<le> i \<and> i < int (length xs) then Inr (xs ! nat i)
      else if i < 0 \<and> - int (length xs) \<le> i then Inr (xs ! nat (int (length xs) + i))
      else Inl (IndexError ''list index out of range''))"

text \<open>The slice \<open>xs[i::step]\<close> for \<open>0 \<le> i\<close> and \<open>1 \<le> step\<close>: positions i, i+step, ...\<close>

definition py_slice_step :: "'a list \<Rightarrow> nat \<Rightarrow> nat \<Rightarrow> 'a list" where
  "py_slice_step xs i step =
     map snd (filter (\<lambda>(j, x). i \<le> j \<and> (j - i) mod step = 0) (enumerate 0 xs))"

section \<open>cil/framework/sampler.py\<close>

subsection \<open>The random generator, a parameter\<close>

text \<open>
  \<open>numpy.random.RandomState\<close> is not part of the repository. It is a parameter of the
  model: \<open>RandomState seed\<close> is the generator state after seeding, \<open>permutation g xs\<close> returns
  the shuffled copy of \<open>xs\<close> and the advanced generator state, \<open>choice g n p\<close> draws one
  index (or raises on an invalid probability vector) and advances the state.
\<close>

record 'g np_random =
  RandomState :: "int \<Rightarrow> 'g"
  permutation :: "'g \<Rightarrow> int list \<Rightarrow> int list \<times> 'g"
  choice :: "'g \<Rightarrow> int \<Rightarrow> real list \<Rightarrow> (error + int) \<times> 'g"

subsection \<open>The Sampler object\<close>

datatype iterator = next_order | next_prob

record 'g Sampler =
  sampling_type :: string
  num_subsets :: int
  seed :: int
  generator :: 'g
  order :: "int list option"
  initial_order :: "int list option"
  iterator :: "iterator option"
  prob :: "real list option"
  shuffle :: bool
  last_subset :: int

text \<open>\<open>Sampler.__init__\<close>. \<open>now\<close> is the reading of \<open>int(time.time())\<close>, used when no seed
  is given. The attribute \<open>iterator\<close> is bound to \<open>_next_order\<close> when an order is given and
  rebound to \<open>_next_prob\<close> when a probability vector is given; it stays unset otherwise.\<close>

definition Sampler_init ::
  "'g np_random \<Rightarrow> int \<Rightarrow> int \<Rightarrow> string \<Rightarrow> bool \<Rightarrow> int list option \<Rightarrow> real list option
     \<Rightarrow> int option \<Rightarrow> 'g Sampler" where
  "Sampler_init rs now n ty shuf ord pr sd =
     (let the_seed = (case sd of Some s \<Rightarrow> s | None \<Rightarrow> now)
      in \<lparr> sampling_type = ty,
           num_subsets = n,
           seed = the_seed,
           generator = RandomState rs the_seed,
           order = ord,
           initial_order = ord,
           iterator = (if pr \<noteq> None then Some next_prob
                       else if ord \<noteq> None then Some next_order else None),
           prob = pr,
           shuffle = shuf,
           last_subset = n - 1 \<rparr>)"

subsection \<open>The factories\<close>

definition sequential :: "'g np_random \<Rightarrow> int \<Rightarrow> int \<Rightarrow> error + 'g Sampler" where
  "sequential rs now n =
     (let ord = map int [0..<nat n]
      in Inr (Sampler_init rs now n ''sequential'' False (Some ord) None None))"

definition customOrder :: "'g np_random \<Rightarrow> int \<Rightarrow> int list \<Rightarrow> error + 'g Sampler" where
  "customOrder rs now customlist =
     (let n = int (length customlist)
      in Inr (Sampler_init rs now n ''custom_order'' False (Some customlist) None None))"

text \<open>The factorisation loop of \<open>_herman_meyer_order\<close>:
  \<^verbatim>\<open>while i * i <= n_variable: if n_variable % i: i += 1 else: n_variable //= i; factors.append(i)\<close>.
  The source starts \<open>i\<close> at 2 and only increments it, so \<open>2 \<le> i\<close> always holds there; the
  model writes that bound into the loop test, which makes the function total on every
  integer.\<close>

function factor_loop :: "int \<Rightarrow> int \<Rightarrow> int list \<Rightarrow> int \<times> int list" where
  "factor_loop i n_variable factors =
     (if 2 \<le> i \<and> i * i \<le> n_variable then
        (if n_variable mod i \<noteq> 0 then factor_loop (i + 1) n_variable factors
         else factor_loop i (n_variable div i) (factors @ [i]))
      else (n_variable, factors))"
  by pat_completeness auto
termination
proof (relation "measure (\<lambda>(i, nv, fs). nat (2 * nv - i))")
  show "wf (measure (\<lambda>(i, nv, fs). nat (2 * nv - i)))" by simp
next
  fix i n_variable :: int and factors :: "int list"
  assume a: "2 \<le> i \<and> i * i \<le> n_variable"
  have "i * 2 \<le> i * i" using a by (intro mult_left_mono) auto
  then have "2 * i \<le> n_variable" using a by linarith
  then show "((i + 1, n_variable, factors), (i, n_variable, factors))
      \<in> measure (\<lambda>(i, nv, fs). nat (2 * nv - i))"
    using a by simp
next
  fix i n_variable :: int and factors :: "int list"
  assume a: "2 \<le> i \<and> i * i \<le> n_variable"
  have "i * 2 \<le> i * i" using a by (intro mult_left_mono) auto
  then have pos: "2 * i \<le> n_variable" using a by linarith
  have "n_variable div i \<le> n_variable div 2"
    using a pos by (intro zdiv_mono2) auto
  then have "2 * (n_variable div i) \<le> n_variable" by linarith
  then show "((i, n_variable div i, factors @ [i]), (i, n_variable, factors))
      \<in> measure (\<lambda>(i, nv, fs). nat (2 * nv - i))"
    using a pos by simp
qed

declare factor_loop.simps [simp del]

text \<open>The body of the inner loop \<open>for element in range(n)\<close>; the loop state is
  \<open>(value, n_rep_value, order)\<close>.\<close>

definition element_step ::
  "int list \<Rightarrow> nat \<Rightarrow> int \<Rightarrow> nat \<Rightarrow> int \<times> int \<times> int list \<Rightarrow> int \<times> int \<times> int list" where
  "element_step factors factor_n n_change_value element =
     (\<lambda>(value0, n_rep_value0, order0).
        let mapping = value0;
            n_rep_value1 = n_rep_value0 + 1;
            value1 = (if n_rep_value1 \<ge> n_change_value then value0 + 1 else value0);
            n_rep_value2 = (if n_rep_value1 \<ge> n_change_value then 0 else n_rep_value1);
            value2 = (if value1 = factors ! factor_n then 0 else value1)
        in (value2, n_rep_value2,
            order0[element := order0 ! element
                      + prod_list (drop (factor_n + 1) factors) * mapping]))"

text \<open>The body of the outer loop \<open>for factor_n in range(n_factors)\<close>; \<open>value\<close> and
  \<open>order\<close> survive from one factor to the next.\<close>

definition factor_pass :: "int \<Rightarrow> int list \<Rightarrow> nat \<Rightarrow> int \<times> int list \<Rightarrow> int \<times> int list" where
  "factor_pass n factors factor_n =
     (\<lambda>(value0, order0).
        let n_change_value = (if factor_n = 0 then 1 else prod_list (take factor_n factors));
            r = fold (element_step factors factor_n n_change_value) [0..<nat n]
                  (value0, 0, order0)
        in (fst r, snd (snd r)))"

definition herman_meyer_factors :: "int \<Rightarrow> int list" where
  "herman_meyer_factors n =
     (let r = factor_loop 2 n []
      in if fst r > 1 then snd r @ [fst r] else snd r)"

definition herman_meyer_order :: "int \<Rightarrow> error + int list" where
  "herman_meyer_order n =
     (let factors = herman_meyer_factors n;
          n_factors = length factors
      in if n_factors = 0 then
           Inl (ValueError ''Herman Meyer sampling defaults to sequential ordering if the number of subsets is prime. Please use an alternative sampling method or change the number of subsets. '')
         else Inr (snd (fold (factor_pass n factors) [0..<n_factors]
                          (0, replicate (nat n) 0))))"

definition hermanMeyer :: "'g np_random \<Rightarrow> int \<Rightarrow> int \<Rightarrow> error + 'g Sampler" where
  "hermanMeyer rs now n =
     (case herman_meyer_order n of
        Inl e \<Rightarrow> Inl e
      | Inr ord \<Rightarrow> Inr (Sampler_init rs now n ''herman_meyer'' False (Some ord) None None))"

definition staggered :: "'g np_random \<Rightarrow> int \<Rightarrow> int \<Rightarrow> int \<Rightarrow> error + 'g Sampler" where
  "staggered rs now n offset =
     (if offset \<ge> n then
        Inl (ValueError ''The offset should be less than the number of subsets'')
      else
        let indices = map int [0..<nat n];
            ord = concat (map (\<lambda>i. py_slice_step indices i (nat offset)) [0..<nat offset])
        in Inr (Sampler_init rs now n ''staggered'' False (Some ord) None None))"

definition randomWithReplacement ::
  "'g np_random \<Rightarrow> int \<Rightarrow> int \<Rightarrow> real list option \<Rightarrow> int option \<Rightarrow> error + 'g Sampler" where
  "randomWithReplacement rs now n pr sd =
     (case pr of
        None \<Rightarrow>
          if n = 0 then Inl ZeroDivisionError
          else Inr (Sampler_init rs now n ''random_with_replacement'' False None
                      (Some (replicate (nat n) (1 / real_of_int n))) sd)
      | Some p \<Rightarrow>
          Inr (Sampler_init rs now n ''random_with_replacement'' False None (Some p) sd))"

definition randomWithoutReplacement ::
  "'g np_random \<Rightarrow> int \<Rightarrow> int \<Rightarrow> int option \<Rightarrow> bool \<Rightarrow> error + 'g Sampler" where
  "randomWithoutReplacement rs now n sd shuf =
     (let ord = map int [0..<nat n]
      in Inr (Sampler_init rs now n ''random_without_replacement'' shuf (Some ord) None sd))"

subsection \<open>Drawing\<close>

text \<open>\<open>_next_order\<close>: reshuffle when the cursor sits on the last position, advance the
  cursor modulo \<open>num_subsets\<close>, read the order at the cursor. The cursor is assigned before
  the read, so an IndexError leaves it advanced. The method is bound as iterator only when
  an order is given, so the branch for a missing order is not reached from the factories;
  there the subscript of None raises TypeError.\<close>

definition sampler_next_order :: "'g np_random \<Rightarrow> 'g Sampler \<Rightarrow> (error + int) \<times> 'g Sampler" where
  "sampler_next_order rs s =
     (case order s of
        None \<Rightarrow>
          (if num_subsets s = 0 then (Inl ZeroDivisionError, s)
           else (Inl (TypeError ''NoneType object is not subscriptable''),
                 s\<lparr>last_subset := (last_subset s + 1) mod num_subsets s\<rparr>))
      | Some ord \<Rightarrow>
          let reshuffle = (shuffle s \<and> last_subset s = num_subsets s - 1);
              r = permutation rs (generator s) ord;
              ord1 = (if reshuffle then fst r else ord);
              s1 = (if reshuffle then s\<lparr>order := Some (fst r), generator := snd r\<rparr> else s)
          in if num_subsets s1 = 0 then (Inl ZeroDivisionError, s1)
             else
               let s2 = s1\<lparr>last_subset := (last_subset s1 + 1) mod num_subsets s1\<rparr>
               in (py_index ord1 (last_subset s2), s2))"

text \<open>\<open>_next_prob\<close>: one categorical draw from the generator.\<close>

definition sampler_next_prob :: "'g np_random \<Rightarrow> 'g Sampler \<Rightarrow> (error + int) \<times> 'g Sampler" where
  "sampler_next_prob rs s =
     (case prob s of
        None \<Rightarrow> (Inl (TypeError ''no probabilities''), s)
      | Some p \<Rightarrow>
          let r = choice rs (generator s) (num_subsets s) p
          in (fst r, s\<lparr>generator := snd r\<rparr>))"

text \<open>\<open>next\<close> (and \<open>__next__\<close>): call the bound iterator.\<close>

definition sampler_next :: "'g np_random \<Rightarrow> 'g Sampler \<Rightarrow> (error + int) \<times> 'g Sampler" where
  "sampler_next rs s =
     (case iterator s of
        None \<Rightarrow> (Inl AttributeError, s)
      | Some next_order \<Rightarrow> sampler_next_order rs s
      | Some next_prob \<Rightarrow> sampler_next_prob rs s)"

text \<open>\<open>[self.next() for _ in range(k)]\<close>: the first exception ends the comprehension, with
  the sampler as the failing call left it.\<close>

fun next_n :: "'g np_random \<Rightarrow> nat \<Rightarrow> 'g Sampler \<Rightarrow> (error + int list) \<times> 'g Sampler" where
  "next_n rs 0 s = (Inr [], s)"
| "next_n rs (Suc k) s =
     (case sampler_next rs s of
        (Inl e, s1) \<Rightarrow> (Inl e, s1)
      | (Inr i, s1) \<Rightarrow>
          (case next_n rs k s1 of
             (Inl e, s2) \<Rightarrow> (Inl e, s2)
           | (Inr out, s2) \<Rightarrow> (Inr (i # out), s2)))"

text \<open>\<open>get_samples\<close>: save generator, cursor and order; reset them to the values
  \<open>__init__\<close> gave them; draw; restore. There is no \<open>try/finally\<close>: an exception in a draw
  leaves the replay state in place.\<close>

definition get_samples ::
  "'g np_random \<Rightarrow> int \<Rightarrow> 'g Sampler \<Rightarrow> (error + int list) \<times> 'g Sampler" where
  "get_samples rs num_samples s =
     (let save_generator = generator s;
          save_last_subset = last_subset s;
          s1 = s\<lparr>last_subset := num_subsets s - 1\<rparr>;
          save_order = order s1;
          s2 = s1\<lparr>order := initial_order s1\<rparr>;
          s3 = s2\<lparr>generator := RandomState rs (seed s2)\<rparr>
      in case next_n rs (nat num_samples) s3 of
           (Inl e, s4) \<Rightarrow> (Inl e, s4)
         | (Inr output, s4) \<Rightarrow>
             (Inr output,
              s4\<lparr>generator := save_generator, order := save_order,
                 last_subset := save_last_subset\<rparr>))"

subsection \<open>Clients of the sampler, for stating its properties\<close>

text \<open>The state \<open>__init__\<close> leaves behind, rebuilt from the fields no draw changes: the
  cursor on the last position, the order as given, the generator freshly seeded.\<close>

definition post_construction :: "'g np_random \<Rightarrow> 'g Sampler \<Rightarrow> 'g Sampler" where
  "post_construction rs s =
     s\<lparr>last_subset := num_subsets s - 1, order := initial_order s,
       generator := RandomState rs (seed s)\<rparr>"

text \<open>A caller that mixes \<open>next()\<close> and \<open>get_samples(m)\<close> in any order, and what it sees.\<close>

datatype call = Next | GetSamples int

datatype outcome = Drawn int | Samples "int list"

fun run :: "'g np_random \<Rightarrow> call list \<Rightarrow> 'g Sampler \<Rightarrow> (error + outcome list) \<times> 'g Sampler" where
  "run rs [] s = (Inr [], s)"
| "run rs (Next # cs) s =
     (case sampler_next rs s of
        (Inl e, s1) \<Rightarrow> (Inl e, s1)
      | (Inr i, s1) \<Rightarrow>
          (case run rs cs s1 of
             (Inl e, s2) \<Rightarrow> (Inl e, s2)
           | (Inr outs, s2) \<Rightarrow> (Inr (Drawn i # outs), s2)))"
| "run rs (GetSamples m # cs) s =
     (case get_samples rs m s of
        (Inl e, s1) \<Rightarrow> (Inl e, s1)
      | (Inr xs, s1) \<Rightarrow>
          (case run rs cs s1 of
             (Inl e, s2) \<Rightarrow> (Inl e, s2)
           | (Inr outs, s2) \<Rightarrow> (Inr (Samples xs # outs), s2)))"

fun next_calls :: "call list \<Rightarrow> nat" where
  "next_calls [] = 0"
| "next_calls (Next # cs) = Suc (next_calls cs)"
| "next_calls (GetSamples m # cs) = next_calls cs"

fun drawn :: "outcome list \<Rightarrow> int list" where
  "drawn [] = []"
| "drawn (Drawn i # outs) = i # drawn outs"
| "drawn (Samples xs # outs) = drawn outs"

text \<open>\<open>replayed rs s0 c out\<close>: the outcome fits the call, and the outcome of a
  \<open>get_samples(m)\<close> is the list of the first m draws from the state \<open>s0\<close>.\<close>

fun replayed :: "'g np_random \<Rightarrow> 'g Sampler \<Rightarrow> call \<Rightarrow> outcome \<Rightarrow> bool" where
  "replayed rs s0 Next (Drawn i) = True"
| "replayed rs s0 (GetSamples m) (Samples xs) = (fst (next_n rs (nat m) s0) = Inr xs)"
| "replayed rs s0 c out = False"

text \<open>The fields no draw writes.\<close>

definition same_config :: "'g Sampler \<Rightarrow> 'g Sampler \<Rightarrow> bool" where
  "same_config s s' =
     (sampling_type s' = sampling_type s \<and> num_subsets s' = num_subsets s \<and> seed s' = seed s \<and>
      initial_order s' = initial_order s \<and> iterator s' = iterator s \<and> prob s' = prob s \<and>
      shuffle s' = shuffle s \<and> Sampler.more s' = Sampler.more s)"

text \<open>A shuffling sampler about to start a cycle: the cursor on the last position and
  the working order a permutation of \<open>0, ..., n-1\<close>.\<close>

definition block_start :: "'g Sampler \<Rightarrow> nat \<Rightarrow> bool" where
  "block_start s n =
     (iterator s = Some next_order \<and> shuffle s \<and> num_subsets s = int n \<and>
      last_subset s = int n - 1 \<and>
      (case order s of None \<Rightarrow> False | Some p \<Rightarrow> mset p = mset (map int [0..<n])))"

text \<open>A small deterministic generator, to run the model on concrete inputs: the state
  counts the calls, a permutation rotates its argument.\<close>

definition test_random :: "nat np_random" where
  "test_random =
     \<lparr> RandomState = (\<lambda>sd. nat \<bar>sd\<bar>),
       permutation = (\<lambda>g xs. (rotate (Suc g) xs, Suc g)),
       choice = (\<lambda>g n p. (if n \<le> 0 then Inl (ValueError ''a must be greater than 0'')
                           else Inr (int g mod n), Suc g)) \<rparr>"

text \<open>A sampler over an order of \<open>num_subsets\<close> entries, \<open>num_subsets \<ge> 1\<close>, with the
  cursor inside the order.\<close>

definition order_ok :: "'g Sampler \<Rightarrow> bool" where
  "order_ok s =
     (iterator s = Some next_order \<and> 1 \<le> num_subsets s \<and>
      0 \<le> last_subset s \<and> last_subset s < num_subsets s \<and>
      map_option (\<lambda>p. int (length p)) (order s) = Some (num_subsets s) \<and>
      map_option (\<lambda>p. int (length p)) (initial_order s) = Some (num_subsets s))"

text \<open>Primality, for the inputs Herman-Meyer sampling is documented to reject.\<close>

definition is_prime :: "int \<Rightarrow> bool" where
  "is_prime p = (2 \<le> p \<and> (\<forall>d. 2 \<le> d \<and> d < p \<longrightarrow> p mod d \<noteq> 0))"
section \<open>Collaborators of the algorithms\<close>

text \<open>
  Containers, functions and operators are consumed through narrow interfaces and are not
  part of the sources. A container's content is a value of a type \<open>'v\<close> with the
  operations of a real algebra (addition, scaling by a number, elementwise product).
  Container objects live in a store; an address names an object, so that two names for
  one object alias. \<open>copy\<close>, \<open>allocate\<close>, \<open>direct\<close> without \<open>out\<close> and
  \<open>proximal_conjugate\<close> return a new object.
\<close>

type_synonym addr = nat

type_synonym 'v store = "'v list"

definition alloc :: "'v store \<Rightarrow> 'v \<Rightarrow> addr \<times> 'v store" where
  "alloc h v = (length h, h @ [v])"

definition copy :: "'v store \<Rightarrow> addr \<Rightarrow> addr \<times> 'v store" where
  "copy h a = alloc h (h ! a)"

text \<open>A step size is a Python number or an array-like object.\<close>

datatype 'v pyval = Number real | Array 'v

fun isinstance_Number :: "'v pyval \<Rightarrow> bool" where
  "isinstance_Number (Number r) = True"
| "isinstance_Number (Array a) = False"

fun scale :: "'v::real_algebra pyval \<Rightarrow> 'v \<Rightarrow> 'v" where
  "scale (Number r) v = r *\<^sub>R v"
| "scale (Array a) v = a * v"

fun neg :: "'v::real_algebra pyval \<Rightarrow> 'v pyval" where
  "neg (Number r) = Number (- r)"
| "neg (Array a) = Array (- a)"

text \<open>Modelled from the spec: the container operations, which the sources call and do not
  define. \<open>sapyb(a, other, b, out)\<close> computes \<open>out = a*self + b*other\<close>;
  \<open>subtract(other, out)\<close> computes \<open>out = self - other\<close>; \<open>add(other, out)\<close> computes
  \<open>out = self + other\<close>; \<open>fill(other)\<close> overwrites the content of \<open>self\<close> with that of
  \<open>other\<close>.\<close>

definition sapyb :: "'v::real_algebra store \<Rightarrow> addr \<Rightarrow> 'v pyval \<Rightarrow> addr \<Rightarrow> 'v pyval \<Rightarrow> addr \<Rightarrow> 'v store" where
  "sapyb h self a other b out = h[out := scale a (h ! self) + scale b (h ! other)]"

definition subtract :: "'v::real_algebra store \<Rightarrow> addr \<Rightarrow> addr \<Rightarrow> addr \<Rightarrow> 'v store" where
  "subtract h self other out = h[out := h ! self - h ! other]"

definition add :: "'v::real_algebra store \<Rightarrow> addr \<Rightarrow> addr \<Rightarrow> addr \<Rightarrow> 'v store" where
  "add h self other out = h[out := h ! self + h ! other]"

definition fill :: "'v store \<Rightarrow> addr \<Rightarrow> addr \<Rightarrow> 'v store" where
  "fill h self other = h[self := h ! other]"

text \<open>A Function object: its value, gradient, proximal map, convex conjugate, proximal map
  of the conjugate, its Lipschitz constant \<open>L\<close> (a number or None), and whether it is an
  instance of ZeroFunction.\<close>

record 'v Function =
  fn_call :: "'v \<Rightarrow> real"
  fn_gradient :: "'v \<Rightarrow> 'v"
  fn_proximal :: "'v \<Rightarrow> 'v pyval \<Rightarrow> 'v"
  fn_convex_conjugate :: "'v \<Rightarrow> real"
  fn_proximal_conjugate :: "'v \<Rightarrow> 'v pyval \<Rightarrow> 'v"
  fn_L :: "real option"
  isinstance_ZeroFunction :: bool

text \<open>A linear operator of a BlockOperator, with the norm \<open>get_norms_as_list\<close> reports.\<close>

record 'v LinearOperator =
  direct :: "'v \<Rightarrow> 'v"
  adjoint :: "'v \<Rightarrow> 'v"
  op_norm :: real

text \<open>The sampler an SPDHG instance is given is any object with \<open>__next__\<close>; \<open>'s\<close> is its
  state. \<open>smp_next\<close> is \<open>next(sampler)\<close>, \<open>smp_prob_weights\<close> is
  \<open>getattr(sampler, 'prob_weights', None)\<close>, \<open>smp_default n p\<close> is the sampler \<open>set_up\<close>
  creates when none is given.\<close>

record 's sampler_iface =
  smp_next :: "'s \<Rightarrow> (error + int) \<times> 's"
  smp_prob_weights :: "'s \<Rightarrow> real list option"
  smp_default :: "int \<Rightarrow> real list \<Rightarrow> 's"

section \<open>cil/optimisation/algorithms/SPDHG.py\<close>

text \<open>The attributes of an SPDHG instance. Containers are held by address.\<close>

record ('v, 's) SPDHG =
  spdhg_f :: "'v Function list"
  spdhg_g :: "'v Function"
  spdhg_operator :: "'v LinearOperator list"
  spdhg_ndual_subsets :: int
  spdhg_sampler :: 's
  spdhg_prob_weights :: "real list"
  spdhg_norms :: "real list"
  spdhg_sigma :: "'v pyval list"
  spdhg_tau :: "'v pyval"
  spdhg_x :: addr
  spdhg_x_tmp :: addr
  spdhg_y_old :: "addr list"
  spdhg_z :: addr
  spdhg_zbar :: addr
  spdhg_theta :: real
  spdhg_configured :: bool
  spdhg_loss :: "(real \<times> real \<times> real) list"

subsection \<open>Step sizes\<close>

text \<open>Python's \<open>min\<close> of a list of floats; ValueError on the empty list.\<close>

definition py_min :: "real list \<Rightarrow> error + real" where
  "py_min xs = (case xs of [] \<Rightarrow> Inl (ValueError ''min() arg is an empty sequence'')
                | y # ys \<Rightarrow> Inr (fold min ys y))"

text \<open>\<open>[pi / (si * ni**2) for pi, ni, si in zip(prob_weights, norms, sigma)]\<close>: float
  division raises ZeroDivisionError on a zero divisor. The entries of \<open>sigma\<close> are numbers
  wherever \<open>set_step_sizes\<close> evaluates this; an array entry would make the later comparison
  \<open>value > 1e-8\<close> raise.\<close>

fun tau_values :: "real list \<Rightarrow> real list \<Rightarrow> 'v pyval list \<Rightarrow> error + real list" where
  "tau_values (p # ps) (n # ns) (Number s # ss) =
     (if s * n\<^sup>2 = 0 then Inl ZeroDivisionError
      else (case tau_values ps ns ss of Inl e \<Rightarrow> Inl e | Inr vs \<Rightarrow> Inr (p / (s * n\<^sup>2) # vs)))"
| "tau_values (p # ps) (n # ns) (Array a # ss) =
     Inl (ValueError ''The truth value of an array with more than one element is ambiguous'')"
| "tau_values ps ns ss = Inr []"

text \<open>\<open>[gamma * rho / ni for ni in norms]\<close>\<close>

definition sigma_from_norms :: "real \<Rightarrow> real \<Rightarrow> real list \<Rightarrow> error + 'v pyval list" where
  "sigma_from_norms gamma rho ns =
     (if list_ex (\<lambda>ni. ni = 0) ns then Inl ZeroDivisionError
      else Inr (map (\<lambda>ni. Number (gamma * rho / ni)) ns))"

text \<open>\<open>[gamma * rho * pi / (tau * ni**2) for ni, pi in zip(norms, prob_weights)]\<close> for a
  number \<open>tau\<close>\<close>

definition sigma_from_tau :: "real \<Rightarrow> real \<Rightarrow> real \<Rightarrow> real list \<Rightarrow> real list \<Rightarrow> error + 'v pyval list" where
  "sigma_from_tau gamma rho t ns ps =
     (if list_ex (\<lambda>(ni, pi). t * ni\<^sup>2 = 0) (zip ns ps) then Inl ZeroDivisionError
      else Inr (map (\<lambda>(ni, pi). Number (gamma * rho * pi / (t * ni\<^sup>2))) (zip ns ps)))"

fun positive_number :: "'v pyval \<Rightarrow> bool" where
  "positive_number (Number r) = (r > 0)"
| "positive_number (Array a) = False"

text \<open>The second half of \<open>set_step_sizes\<close>, once \<open>self._sigma\<close> is assigned.\<close>

definition resolve_tau ::
  "real \<Rightarrow> real \<Rightarrow> 'v pyval option \<Rightarrow> ('v, 's) SPDHG \<Rightarrow> error + ('v, 's) SPDHG" where
  "resolve_tau gamma rho tau st =
     (case tau of
        None \<Rightarrow>
          (case tau_values (spdhg_prob_weights st) (spdhg_norms st) (spdhg_sigma st) of
             Inl e \<Rightarrow> Inl e
           | Inr vals \<Rightarrow>
               (case py_min (filter (\<lambda>v. v > 1 / 10 ^ 8) vals) of
                  Inl e \<Rightarrow> Inl e
                | Inr m \<Rightarrow> Inr (st\<lparr>spdhg_tau := Number (m * (rho / gamma))\<rparr>)))
      | Some t \<Rightarrow>
          if positive_number t then Inr (st\<lparr>spdhg_tau := t\<rparr>)
          else Inl (ValueError ''The step-sizes of SPDHG must be positive, passed tau = {}''))"

text \<open>\<open>set_step_sizes\<close>. An exception abandons the call; the model returns the exception
  alone then. With \<open>tau\<close> an array and no \<open>sigma\<close>, the source computes arrays for
  \<open>sigma\<close> and then rejects \<open>tau\<close>.\<close>

definition set_step_sizes ::
  "'v pyval list option \<Rightarrow> 'v pyval option \<Rightarrow> ('v, 's) SPDHG \<Rightarrow> error + ('v, 's) SPDHG" where
  "set_step_sizes sigma tau st =
     (let gamma = 1; rho = 99 / 100 in
      case sigma of
        Some sg \<Rightarrow>
          if int (length sg) = spdhg_ndual_subsets st then
            (if list_all positive_number sg
             then resolve_tau gamma rho tau (st\<lparr>spdhg_sigma := sg\<rparr>)
             else Inl (ValueError ''Sigma expected to be a positive number.''))
          else Inl (ValueError ''Please pass a list of floats to sigma with the same number of entries as number of operators'')
      | None \<Rightarrow>
          (case tau of
             None \<Rightarrow>
               (case sigma_from_norms gamma rho (spdhg_norms st) of
                  Inl e \<Rightarrow> Inl e
                | Inr sg \<Rightarrow> resolve_tau gamma rho tau (st\<lparr>spdhg_sigma := sg\<rparr>))
           | Some (Number t) \<Rightarrow>
               (case sigma_from_tau gamma rho t (spdhg_norms st) (spdhg_prob_weights st) of
                  Inl e \<Rightarrow> Inl e
                | Inr sg \<Rightarrow> resolve_tau gamma rho tau (st\<lparr>spdhg_sigma := sg\<rparr>))
           | Some (Array a) \<Rightarrow>
               Inl (ValueError ''The step-sizes of SPDHG must be positive, passed tau = {}'')))"

text \<open>\<open>check_convergence\<close>. The body of its loop \<open>for i in range(self._ndual_subsets)\<close>
  yields \<open>Some r\<close> when it executes \<open>return r\<close> (or raises) and \<open>None\<close> when it falls
  through to the next index. In the source every path of the body returns. A loop that runs
  out of indices makes the method return Python's None.\<close>

definition check_convergence_body :: "('v, 's) SPDHG \<Rightarrow> nat \<Rightarrow> (error + bool) option" where
  "check_convergence_body st i =
     (case spdhg_tau st of
        Array a \<Rightarrow> Some (Inr False)
      | Number t \<Rightarrow>
          (case py_index (spdhg_sigma st) (int i) of
             Inl e \<Rightarrow> Some (Inl e)
           | Inr (Array a) \<Rightarrow> Some (Inr False)
           | Inr (Number s) \<Rightarrow>
               (case py_index (spdhg_norms st) (int i) of
                  Inl e \<Rightarrow> Some (Inl e)
                | Inr n \<Rightarrow>
                    (case py_index (spdhg_prob_weights st) (int i) of
                       Inl e \<Rightarrow> Some (Inl e)
                     | Inr p \<Rightarrow>
                         if s * t * n\<^sup>2 > p then Some (Inr False)
                         else Some (Inr True)))))"

fun check_convergence_loop :: "('v, 's) SPDHG \<Rightarrow> nat list \<Rightarrow> error + bool option" where
  "check_convergence_loop st [] = Inr None"
| "check_convergence_loop st (i # rest) =
     (case check_convergence_body st i of
        Some (Inl e) \<Rightarrow> Inl e
      | Some (Inr b) \<Rightarrow> Inr (Some b)
      | None \<Rightarrow> check_convergence_loop st rest)"

definition check_convergence :: "('v, 's) SPDHG \<Rightarrow> error + bool option" where
  "check_convergence st = check_convergence_loop st [0..<nat (spdhg_ndual_subsets st)]"

definition criterion_violated :: "('v, 's) SPDHG \<Rightarrow> nat \<Rightarrow> bool" where
  "criterion_violated st i =
     (case (spdhg_sigma st ! i, spdhg_tau st) of
        (Number s, Number t) \<Rightarrow> s * t * (spdhg_norms st ! i)\<^sup>2 > spdhg_prob_weights st ! i
      | _ \<Rightarrow> False)"

subsection \<open>set_up\<close>

text \<open>Allocating a BlockDataContainer of \<open>k\<close> zero containers.\<close>

fun alloc_zeros :: "'v::zero store \<Rightarrow> nat \<Rightarrow> addr list \<times> 'v store" where
  "alloc_zeros h 0 = ([], h)"
| "alloc_zeros h (Suc k) =
     (let r = alloc h 0; rest = alloc_zeros (snd r) k in (fst r # fst rest, snd rest))"

text \<open>\<open>SPDHG.set_up\<close>, called without the deprecated keyword arguments \<open>prob\<close> and \<open>norms\<close>.
  The operator is a BlockOperator, a sequence of linear operators. The result is the
  exception, or the configured instance, together with the store.\<close>

definition SPDHG_set_up ::
  "'s sampler_iface \<Rightarrow> 'v Function list \<Rightarrow> 'v Function \<Rightarrow> 'v LinearOperator list \<Rightarrow>
   'v pyval list option \<Rightarrow> 'v pyval option \<Rightarrow> addr option \<Rightarrow> 's option \<Rightarrow> real list option \<Rightarrow>
   'v::real_algebra store \<Rightarrow> (error + ('v, 's) SPDHG) \<times> 'v store" where
  "SPDHG_set_up si f g operator sigma tau initial sampler prob_weights h =
     (let ndual_subsets = int (length operator);
          sampler_pw = (case sampler of None \<Rightarrow> None | Some s \<Rightarrow> smp_prob_weights si s)
      in
      if prob_weights \<noteq> None \<and> sampler_pw \<noteq> None then
        (Inl (ValueError '' You passed a `prob_weights` argument and a sampler with attribute `prob_weights`, please remove the `prob_weights` argument.''), h)
      else if prob_weights = None \<and> sampler_pw = None \<and> ndual_subsets = 0 then
        (Inl ZeroDivisionError, h)
      else
        let pw = (case prob_weights of
                    Some p \<Rightarrow> p
                  | None \<Rightarrow>
                      (case sampler_pw of
                         Some p \<Rightarrow> p
                       | None \<Rightarrow> replicate (nat ndual_subsets) (1 / real_of_int ndual_subsets)));
            smp = (case sampler of Some s \<Rightarrow> s | None \<Rightarrow> smp_default si ndual_subsets pw);
            st0 = \<lparr> spdhg_f = f, spdhg_g = g, spdhg_operator = operator,
                    spdhg_ndual_subsets = ndual_subsets, spdhg_sampler = smp,
                    spdhg_prob_weights = pw, spdhg_norms = map op_norm operator,
                    spdhg_sigma = [], spdhg_tau = Number 0,
                    spdhg_x = 0, spdhg_x_tmp = 0, spdhg_y_old = [], spdhg_z = 0, spdhg_zbar = 0,
                    spdhg_theta = 1, spdhg_configured = False, spdhg_loss = [] \<rparr>
        in
        case set_step_sizes sigma tau st0 of
          Inl e \<Rightarrow> (Inl e, h)
        | Inr st1 \<Rightarrow>
            let rx = (case initial of None \<Rightarrow> alloc h 0 | Some a \<Rightarrow> copy h a);
                rx_tmp = alloc (snd rx) 0;
                ry_old = alloc_zeros (snd rx_tmp) (length operator);
                rz = alloc (snd ry_old) 0;
                rzbar = alloc (snd rz) 0
            in (Inr (st1\<lparr> spdhg_x := fst rx, spdhg_x_tmp := fst rx_tmp,
                           spdhg_y_old := fst ry_old, spdhg_z := fst rz,
                           spdhg_zbar := fst rzbar, spdhg_theta := 1,
                           spdhg_configured := True \<rparr>),
                snd rzbar))"

subsection \<open>update\<close>

definition index_message :: string where
  "index_message = ''The sampler has outputted an index larger than the number of operators to sample from. Please ensure your sampler samples from {1,2,...,len(operator)} only.''"

text \<open>The part of \<open>update\<close> after the block index \<open>i\<close> is drawn. \<open>self.operator[i]\<close>,
  \<open>self._sigma[i]\<close>, \<open>self._y_old[i]\<close>, \<open>self.f[i]\<close> and \<open>self._prob_weights[i]\<close> index
  Python sequences. Only the IndexError of \<open>self.operator[i].direct(self.x)\<close> is caught and
  raised again with the message above. The result is the exception, if any, and the store
  as the call leaves it.\<close>

definition SPDHG_dual_step ::
  "('v::real_algebra, 's) SPDHG \<Rightarrow> int \<Rightarrow> 'v store \<Rightarrow> error option \<times> 'v store" where
  "SPDHG_dual_step st i h =
     (case py_index (spdhg_operator st) i of
        Inl e \<Rightarrow> (Some (IndexError index_message), h)
      | Inr K \<Rightarrow>
          let ry = alloc h (direct K (h ! spdhg_x st)); y_k = fst ry; h1 = snd ry in
          (case py_index (spdhg_sigma st) i of
             Inl e \<Rightarrow> (Some e, h1)
           | Inr sigma_i \<Rightarrow>
               (case py_index (spdhg_y_old st) i of
                  Inl e \<Rightarrow> (Some e, h1)
                | Inr y_old_i \<Rightarrow>
                    let h2 = sapyb h1 y_k sigma_i y_old_i (Number 1) y_k in
                    (case py_index (spdhg_f st) i of
                       Inl e \<Rightarrow> (Some e, h2)
                     | Inr f_i \<Rightarrow>
                         let ry2 = alloc h2 (fn_proximal_conjugate f_i (h2 ! y_k) sigma_i);
                             y_k2 = fst ry2;
                             h3 = subtract (snd ry2) y_k2 y_old_i y_old_i;
                             h4 = h3[spdhg_x_tmp st := adjoint K (h3 ! y_old_i)];
                             h5 = add h4 (spdhg_z st) (spdhg_x_tmp st) (spdhg_z st)
                         in
                         (case py_index (spdhg_prob_weights st) i of
                            Inl e \<Rightarrow> (Some e, h5)
                          | Inr p_i \<Rightarrow>
                              if p_i = 0 then (Some ZeroDivisionError, h5)
                              else
                                let h6 = sapyb h5 (spdhg_z st) (Number 1) (spdhg_x_tmp st)
                                           (Number (spdhg_theta st / p_i)) (spdhg_zbar st);
                                    h7 = fill h6 y_old_i y_k2
                                in (None, h7))))))"

text \<open>The first two statements of \<open>update\<close>: \<open>x_tmp = x - tau * zbar\<close> by \<open>sapyb\<close>, then
  the proximal map of \<open>g\<close> at \<open>x_tmp\<close> into \<open>x\<close>.\<close>

definition SPDHG_primal_step :: "('v::real_algebra, 's) SPDHG \<Rightarrow> 'v store \<Rightarrow> 'v store" where
  "SPDHG_primal_step st h =
     (let h1 = sapyb h (spdhg_x st) (Number 1) (spdhg_zbar st) (neg (spdhg_tau st)) (spdhg_x_tmp st)
      in h1[spdhg_x st := fn_proximal (spdhg_g st) (h1 ! spdhg_x_tmp st) (spdhg_tau st)])"

text \<open>\<open>SPDHG.update\<close>: the primal step, the draw, the dual step.\<close>

definition SPDHG_update ::
  "'s sampler_iface \<Rightarrow> ('v::real_algebra, 's) SPDHG \<Rightarrow> 'v store \<Rightarrow>
     error option \<times> ('v, 's) SPDHG \<times> 'v store" where
  "SPDHG_update si st h =
     (let h2 = SPDHG_primal_step st h;
          r = smp_next si (spdhg_sampler st);
          st1 = st\<lparr>spdhg_sampler := snd r\<rparr>
      in case fst r of
           Inl e \<Rightarrow> (Some e, st1, h2)
         | Inr i \<Rightarrow> (let d = SPDHG_dual_step st1 i h2 in (fst d, st1, snd d)))"

text \<open>\<open>update_objective\<close>. The loop over \<open>enumerate(self.operator.operators)\<close> indexes
  \<open>self.f[i]\<close>, which raises IndexError when there are fewer functions than operators.
  Modelled from the spec: \<open>convex_conjugate\<close> of the BlockFunction sums the conjugates of
  the blocks, \<open>adjoint\<close> of the BlockOperator sums the adjoints of the blocks into a new
  container. That container is negated in place, and \<open>[p1, d1, p1 - d1]\<close> is appended to
  the loss history.\<close>

definition SPDHG_update_objective ::
  "('v::real_algebra, 's) SPDHG \<Rightarrow> 'v store \<Rightarrow> error option \<times> ('v, 's) SPDHG \<times> 'v store" where
  "SPDHG_update_objective st h =
     (if length (spdhg_f st) < length (spdhg_operator st) then
        (Some (IndexError ''tuple index out of range''), st, h)
      else
        let xv = h ! spdhg_x st;
            p1 = (\<Sum>(f_i, op) \<leftarrow> zip (spdhg_f st) (spdhg_operator st). fn_call f_i (direct op xv))
                   + fn_call (spdhg_g st) xv;
            d1a = - (\<Sum>(f_i, y) \<leftarrow> zip (spdhg_f st) (spdhg_y_old st). fn_convex_conjugate f_i (h ! y));
            rtmp = alloc h (\<Sum>(op, y) \<leftarrow> zip (spdhg_operator st) (spdhg_y_old st). adjoint op (h ! y));
            tmp = fst rtmp;
            h1 = (snd rtmp)[tmp := (-1) *\<^sub>R (snd rtmp ! tmp)];
            d1 = d1a - fn_convex_conjugate (spdhg_g st) (h1 ! tmp)
        in (None, st\<lparr>spdhg_loss := spdhg_loss st @ [(p1, d1, p1 - d1)]\<rparr>, h1))"

section \<open>cil/optimisation/algorithms/FISTA.py\<close>

text \<open>Modelled from the spec: ZeroFunction, the placeholder for an absent \<open>f\<close> or \<open>g\<close>:
  zero-valued, zero gradient, identity proximal map. Its conjugate is not used by ISTA and
  FISTA.\<close>

definition ZeroFunction :: "'v::real_algebra Function" where
  "ZeroFunction =
     \<lparr> fn_call = (\<lambda>x. 0), fn_gradient = (\<lambda>x. 0), fn_proximal = (\<lambda>x tau. x),
       fn_convex_conjugate = (\<lambda>x. 0), fn_proximal_conjugate = (\<lambda>x tau. 0),
       fn_L = Some 0, isinstance_ZeroFunction = True \<rparr>"

text \<open>A step-size rule is a ConstantStepSize or another object with \<open>get_step_size\<close>, which
  is handed the algorithm and may read any container. A preconditioner's \<open>apply\<close> is handed
  the algorithm and the gradient and writes its result to \<open>out\<close>.\<close>

datatype 'v step_size_rule = ConstantStepSize real | OtherStepSizeRule "'v store \<Rightarrow> real"

fun get_step_size :: "'v step_size_rule \<Rightarrow> 'v store \<Rightarrow> real" where
  "get_step_size (ConstantStepSize s) h = s"
| "get_step_size (OtherStepSizeRule r) h = r h"

type_synonym 'v preconditioner = "'v store \<Rightarrow> 'v \<Rightarrow> 'v"

record 'v ISTA =
  ista_initial :: addr
  ista_x_old :: addr
  ista_x :: addr
  ista_gradient_update :: addr
  ista_f :: "'v Function"
  ista_g :: "'v Function"
  ista_step_size_rule :: "'v step_size_rule"
  ista_preconditioner :: "'v preconditioner option"
  ista_configured :: bool
  ista_loss :: "real list"

record 'v FISTA = "'v ISTA" +
  fista_y :: addr
  fista_t :: real
  fista_t_old :: real

text \<open>\<open>_calculate_default_step_size\<close> is overridden by FISTA; \<open>set_up\<close> calls the method of
  the instance's class.\<close>

datatype algorithm_class = ISTA_class | FISTA_class

definition calculate_default_step_size ::
  "algorithm_class \<Rightarrow> 'v Function \<Rightarrow> real option \<Rightarrow> error + real" where
  "calculate_default_step_size cls f step_size =
     (case step_size of
        Some s \<Rightarrow> Inr s
      | None \<Rightarrow>
          if isinstance_ZeroFunction f then Inr 1
          else (case fn_L f of
                  Some L \<Rightarrow>
                    if L = 0 then Inl ZeroDivisionError
                    else Inr (case cls of ISTA_class \<Rightarrow> (99 / 100) * 2 / L | FISTA_class \<Rightarrow> 1 / L)
                | None \<Rightarrow> Inl (ValueError ''Function f is not differentiable'')))"

text \<open>\<open>ISTA.set_up\<close>, inherited by FISTA. The three copies of \<open>initial\<close> are made first.\<close>

definition ISTA_set_up ::
  "algorithm_class \<Rightarrow> addr \<Rightarrow> 'v Function option \<Rightarrow> 'v Function option \<Rightarrow> real option \<Rightarrow>
   'v step_size_rule option \<Rightarrow> 'v preconditioner option \<Rightarrow> 'v::real_algebra store \<Rightarrow>
   (error + 'v ISTA) \<times> 'v store" where
  "ISTA_set_up cls initial f g step_size step_size_rule preconditioner h =
     (let rx_old = copy h initial;
          rx = copy (snd rx_old) initial;
          rgrad = copy (snd rx) initial;
          h1 = snd rgrad;
          f1 = (case f of None \<Rightarrow> ZeroFunction | Some f0 \<Rightarrow> f0);
          g1 = (case g of None \<Rightarrow> ZeroFunction | Some g0 \<Rightarrow> g0)
      in
      if isinstance_ZeroFunction f1 \<and> isinstance_ZeroFunction g1 then
        (Inl (ValueError ''You set both f and g to be the ZeroFunction and thus the iterative method will not update and will remain fixed at the initial value.''), h1)
      else
        case (case step_size_rule of
                None \<Rightarrow>
                  (case calculate_default_step_size cls f1 step_size of
                     Inl e \<Rightarrow> Inl e
                   | Inr s \<Rightarrow> Inr (ConstantStepSize s))
              | Some r \<Rightarrow>
                  if step_size \<noteq> None then
                    Inl (TypeError ''You have passed both a `step_size` and a `step_size_rule`, please pass one or the other'')
                  else Inr r) of
          Inl e \<Rightarrow> (Inl e, h1)
        | Inr rule \<Rightarrow>
            (Inr \<lparr> ista_initial = initial, ista_x_old = fst rx_old, ista_x = fst rx,
                   ista_gradient_update = fst rgrad, ista_f = f1, ista_g = g1,
                   ista_step_size_rule = rule, ista_preconditioner = preconditioner,
                   ista_configured = True, ista_loss = [] \<rparr>, h1))"

text \<open>\<open>ISTA.__init__\<close> and \<open>FISTA.__init__\<close>; the latter copies \<open>initial\<close> into \<open>y\<close> and sets
  \<open>t = 1\<close> before the inherited constructor runs.\<close>

definition ISTA_init ::
  "addr \<Rightarrow> 'v Function option \<Rightarrow> 'v Function option \<Rightarrow> real option \<Rightarrow>
   'v step_size_rule option \<Rightarrow> 'v preconditioner option \<Rightarrow> 'v::real_algebra store \<Rightarrow>
   (error + 'v ISTA) \<times> 'v store" where
  "ISTA_init initial f g step_size step_size_rule preconditioner h =
     ISTA_set_up ISTA_class initial f g step_size step_size_rule preconditioner h"

definition FISTA_init ::
  "addr \<Rightarrow> 'v Function option \<Rightarrow> 'v Function option \<Rightarrow> real option \<Rightarrow>
   'v step_size_rule option \<Rightarrow> 'v preconditioner option \<Rightarrow> 'v::real_algebra store \<Rightarrow>
   (error + 'v FISTA) \<times> 'v store" where
  "FISTA_init initial f g step_size step_size_rule preconditioner h =
     (let ry = copy h initial;
          r = ISTA_set_up FISTA_class initial f g step_size step_size_rule preconditioner (snd ry)
      in case fst r of
           Inl e \<Rightarrow> (Inl e, snd r)
         | Inr st \<Rightarrow>
             (Inr (ISTA.extend st
                     (FISTA.fields (fst ry) 1 0)), snd r))"

text \<open>The gradient step both updates share: the gradient of \<open>f\<close> at the container \<open>pt\<close>
  into \<open>gradient_update\<close>, the preconditioner in place, the step size, the step in place,
  the proximal map of \<open>g\<close> into \<open>x\<close>.\<close>

definition gradient_proximal_step :: "('v::real_algebra, 'm) ISTA_scheme \<Rightarrow> addr \<Rightarrow> 'v store \<Rightarrow> 'v store" where
  "gradient_proximal_step st pt h =
     (let h1 = h[ista_gradient_update st := fn_gradient (ista_f st) (h ! pt)];
          h2 = (case ista_preconditioner st of
                  None \<Rightarrow> h1
                | Some P \<Rightarrow> h1[ista_gradient_update st := P h1 (h1 ! ista_gradient_update st)]);
          step_size = get_step_size (ista_step_size_rule st) h2;
          h3 = sapyb h2 pt (Number 1) (ista_gradient_update st) (Number (- step_size)) pt
      in h3[ista_x st := fn_proximal (ista_g st) (h3 ! pt) (Number step_size)])"

definition ISTA_update :: "('v::real_algebra, 'm) ISTA_scheme \<Rightarrow> 'v store \<Rightarrow> 'v store" where
  "ISTA_update st h = gradient_proximal_step st (ista_x_old st) h"

definition update_previous_solution :: "('v, 'm) ISTA_scheme \<Rightarrow> ('v, 'm) ISTA_scheme" where
  "update_previous_solution st =
     (let tmp = ista_x_old st in st\<lparr>ista_x_old := ista_x st, ista_x := tmp\<rparr>)"

definition get_output :: "('v, 'm) ISTA_scheme \<Rightarrow> addr" where
  "get_output st = ista_x_old st"

definition ISTA_update_objective :: "('v, 'm) ISTA_scheme \<Rightarrow> 'v store \<Rightarrow> ('v, 'm) ISTA_scheme" where
  "ISTA_update_objective st h =
     st\<lparr>ista_loss := ista_loss st @
           [fn_call (ista_f st) (h ! ista_x_old st) + fn_call (ista_g st) (h ! ista_x_old st)]\<rparr>"

definition FISTA_update :: "'v::real_algebra FISTA \<Rightarrow> 'v store \<Rightarrow> 'v FISTA \<times> 'v store" where
  "FISTA_update st h =
     (let st1 = st\<lparr>fista_t_old := fista_t st\<rparr>;
          h1 = gradient_proximal_step st1 (fista_y st1) h;
          st2 = st1\<lparr>fista_t := (1 / 2) * (1 + sqrt (1 + 4 * (fista_t_old st1)\<^sup>2))\<rparr>;
          h2 = subtract h1 (ista_x st2) (ista_x_old st2) (fista_y st2);
          h3 = sapyb h2 (fista_y st2) (Number ((fista_t_old st2 - 1) / fista_t st2)) (ista_x st2)
                 (Number 1) (fista_y st2)
      in (st2, h3))"

section \<open>Concrete collaborators for evaluating the models\<close>

definition scripted_sampler :: "int list sampler_iface" where
  "scripted_sampler =
     \<lparr> smp_next = (\<lambda>xs. case xs of [] \<Rightarrow> (Inl (ValueError ''empty script''), [])
                              | i # r \<Rightarrow> (Inr i, r @ [i])),
       smp_prob_weights = (\<lambda>xs. None),
       smp_default = (\<lambda>n p. map int [0..<nat n]) \<rparr>"

definition scaling_operator :: "real \<Rightarrow> real LinearOperator" where
  "scaling_operator c = \<lparr> direct = (\<lambda>v. c * v), adjoint = (\<lambda>v. c * v), op_norm = \<bar>c\<bar> \<rparr>"

fun pyval_real :: "real pyval \<Rightarrow> real" where
  "pyval_real (Number r) = r"
| "pyval_real (Array a) = a"

definition half_square :: "real Function" where
  "half_square =
     \<lparr> fn_call = (\<lambda>x. x\<^sup>2 / 2), fn_gradient = (\<lambda>x. x),
       fn_proximal = (\<lambda>x tau. x / (1 + pyval_real tau)),
       fn_convex_conjugate = (\<lambda>y. y\<^sup>2 / 2),
       fn_proximal_conjugate = (\<lambda>y sigma. y / (1 + pyval_real sigma)),
       fn_L = Some 1, isinstance_ZeroFunction = False \<rparr>"

definition test_spdhg :: "(real, int list) SPDHG" where
  "test_spdhg =
     \<lparr> spdhg_f = [half_square, half_square], spdhg_g = ZeroFunction,
       spdhg_operator = [scaling_operator 1, scaling_operator 2],
       spdhg_ndual_subsets = 2, spdhg_sampler = [0, 1],
       spdhg_prob_weights = [1 / 2, 1 / 2], spdhg_norms = [1, 2],
       spdhg_sigma = [], spdhg_tau = Number 0,
       spdhg_x = 0, spdhg_x_tmp = 0, spdhg_y_old = [], spdhg_z = 0, spdhg_zbar = 0,
       spdhg_theta = 1, spdhg_configured = False, spdhg_loss = [] \<rparr>"
section \<open>Notions for stating the properties of the algorithms\<close>

text \<open>The containers of an SPDHG instance are distinct objects of the store, and the block
  sequences have one entry per operator.\<close>

definition spdhg_wf :: "('v, 's) SPDHG \<Rightarrow> 'v store \<Rightarrow> bool" where
  "spdhg_wf st h =
     (distinct (spdhg_x st # spdhg_x_tmp st # spdhg_z st # spdhg_zbar st # spdhg_y_old st) \<and>
      list_all (\<lambda>a. a < length h)
        (spdhg_x st # spdhg_x_tmp st # spdhg_z st # spdhg_zbar st # spdhg_y_old st) \<and>
      length (spdhg_f st) = length (spdhg_operator st) \<and>
      length (spdhg_sigma st) = length (spdhg_operator st) \<and>
      length (spdhg_y_old st) = length (spdhg_operator st) \<and>
      length (spdhg_prob_weights st) = length (spdhg_operator st))"

text \<open>An SPDHG instance on two blocks as \<open>set_up\<close> returns it, for an initial container
  holding 3 at address 0, default step sizes and a sampler that yields the given indices.\<close>

definition two_block_setup ::
  "int list \<Rightarrow> (error + (real, int list) SPDHG) \<times> real store" where
  "two_block_setup script =
     SPDHG_set_up scripted_sampler [half_square, half_square] ZeroFunction
       [scaling_operator 1, scaling_operator 2] None None (Some 0) (Some script) None [3]"

definition two_block_spdhg :: "int list \<Rightarrow> (real, int list) SPDHG" where
  "two_block_spdhg script =
     \<lparr> spdhg_f = [half_square, half_square], spdhg_g = ZeroFunction,
       spdhg_operator = [scaling_operator 1, scaling_operator 2],
       spdhg_ndual_subsets = 2, spdhg_sampler = script,
       spdhg_prob_weights = [1 / 2, 1 / 2], spdhg_norms = [1, 2],
       spdhg_sigma = [Number (99 / 100), Number (99 / 200)], spdhg_tau = Number (1 / 4),
       spdhg_x = 1, spdhg_x_tmp = 2, spdhg_y_old = [3, 4], spdhg_z = 5, spdhg_zbar = 6,
       spdhg_theta = 1, spdhg_configured = True, spdhg_loss = [] \<rparr>"

definition two_block_store :: "real store" where
  "two_block_store = [3, 3, 0, 0, 0, 0, 0]"

text \<open>Objects below an address \<open>base\<close> keep their content from one store to a later one.\<close>

definition frame :: "nat \<Rightarrow> 'v store \<Rightarrow> 'v store \<Rightarrow> bool" where
  "frame base h h' = (length h \<le> length h' \<and> (\<forall>a<base. h' ! a = h ! a))"

text \<open>Every container an instance writes to lies at or above \<open>base\<close>.\<close>

definition spdhg_above :: "nat \<Rightarrow> ('v, 's) SPDHG \<Rightarrow> bool" where
  "spdhg_above base st =
     list_all (\<lambda>a. base \<le> a)
       (spdhg_x st # spdhg_x_tmp st # spdhg_z st # spdhg_zbar st # spdhg_y_old st)"

definition ista_above :: "nat \<Rightarrow> ('v, 'm) ISTA_scheme \<Rightarrow> bool" where
  "ista_above base st =
     (base \<le> ista_x_old st \<and> base \<le> ista_x st \<and> base \<le> ista_gradient_update st)"

text \<open>What a driver may call on a configured instance, in any order. An exception raised
  by a method of SPDHG is left to the caller, who may go on calling. SPDHG inherits
  \<open>_update_previous_solution\<close> from the base class, where it does nothing.\<close>

datatype alg_call = Update | UpdateObjective | UpdatePreviousSolution

fun ISTA_run :: "alg_call list \<Rightarrow> 'v::real_algebra ISTA \<Rightarrow> 'v store \<Rightarrow> 'v ISTA \<times> 'v store" where
  "ISTA_run [] st h = (st, h)"
| "ISTA_run (Update # cs) st h = ISTA_run cs st (ISTA_update st h)"
| "ISTA_run (UpdateObjective # cs) st h = ISTA_run cs (ISTA_update_objective st h) h"
| "ISTA_run (UpdatePreviousSolution # cs) st h = ISTA_run cs (update_previous_solution st) h"

fun FISTA_run :: "alg_call list \<Rightarrow> 'v::real_algebra FISTA \<Rightarrow> 'v store \<Rightarrow> 'v FISTA \<times> 'v store" where
  "FISTA_run [] st h = (st, h)"
| "FISTA_run (Update # cs) st h = (let r = FISTA_update st h in FISTA_run cs (fst r) (snd r))"
| "FISTA_run (UpdateObjective # cs) st h = FISTA_run cs (ISTA_update_objective st h) h"
| "FISTA_run (UpdatePreviousSolution # cs) st h = FISTA_run cs (update_previous_solution st) h"

fun SPDHG_run ::
  "'s sampler_iface \<Rightarrow> alg_call list \<Rightarrow> ('v::real_algebra, 's) SPDHG \<Rightarrow> 'v store \<Rightarrow>
     ('v, 's) SPDHG \<times> 'v store" where
  "SPDHG_run si [] st h = (st, h)"
| "SPDHG_run si (Update # cs) st h =
     (let r = SPDHG_update si st h in SPDHG_run si cs (fst (snd r)) (snd (snd r)))"
| "SPDHG_run si (UpdateObjective # cs) st h =
     (let r = SPDHG_update_objective st h in SPDHG_run si cs (fst (snd r)) (snd (snd r)))"
| "SPDHG_run si (UpdatePreviousSolution # cs) st h = SPDHG_run si cs st h"

text \<open>An ISTA and a FISTA instance as their constructors return them for an initial
  container holding 3 at address 0 and \<open>f(x) = x^2 / 2\<close>.\<close>

definition test_ista :: "real ISTA" where
  "test_ista =
     \<lparr> ista_initial = 0, ista_x_old = 1, ista_x = 2, ista_gradient_update = 3,
       ista_f = half_square, ista_g = ZeroFunction,
       ista_step_size_rule = ConstantStepSize (99 / 100 * 2 / 1), ista_preconditioner = None,
       ista_configured = True, ista_loss = [] \<rparr>"

definition test_fista :: "real FISTA" where
  "test_fista =
     \<lparr> ista_initial = 0, ista_x_old = 2, ista_x = 3, ista_gradient_update = 4,
       ista_f = half_square, ista_g = ZeroFunction,
       ista_step_size_rule = ConstantStepSize (1 / 1), ista_preconditioner = None,
       ista_configured = True, ista_loss = [],
       fista_y = 1, fista_t = 1, fista_t_old = 0 \<rparr>"

subsection \<open>Draws only touch the cursor, the working order and the generator\<close>

lemma same_config_refl: "same_config s s"
  by (simp add: same_config_def)

lemma same_config_trans: "same_config s s1 \<Longrightarrow> same_config s1 s2 \<Longrightarrow> same_config s s2"
  by (simp add: same_config_def)

lemma sampler_next_config: "same_config s (snd (sampler_next rs s))"
  by (simp add: same_config_def sampler_next_def sampler_next_order_def sampler_next_prob_def
      Let_def split: option.splits iterator.splits)

lemma next_n_config: "same_config s (snd (next_n rs k s))"
proof (induction k arbitrary: s)
  case 0
  show ?case by (simp add: same_config_refl)
next
  case (Suc k)
  obtain r s1 where n1: "sampler_next rs s = (r, s1)" by (cases "sampler_next rs s")
  have c1: "same_config s s1" using sampler_next_config[of s rs] n1 by simp
  show ?case
  proof (cases r)
    case (Inl e)
    then show ?thesis using n1 c1 by simp
  next
    case (Inr i)
    obtain r2 s2 where n2: "next_n rs k s1 = (r2, s2)" by (cases "next_n rs k s1")
    have c2: "same_config s1 s2" using Suc.IH[of s1] n2 by simp
    have "snd (next_n rs (Suc k) s) = s2"
      using n1 n2 Inr by (cases r2) simp_all
    then show ?thesis using same_config_trans[OF c1 c2] by simp
  qed
qed

lemma same_config_post: "same_config s s' \<Longrightarrow> post_construction rs s' = post_construction rs s"
  unfolding same_config_def post_construction_def
  by (intro Sampler.equality) simp_all

lemma Sampler_init_post: "post_construction rs (Sampler_init rs now n ty shuf ord pr sd) =
    Sampler_init rs now n ty shuf ord pr sd"
  by (simp add: post_construction_def Sampler_init_def Let_def)

lemma get_samples_returns:
  assumes "get_samples rs m s = (Inr out, s')"
  shows "s' = s" and "fst (next_n rs (nat m) (post_construction rs s)) = Inr out"
proof -
  let ?s3 = "post_construction rs s"
  obtain r s4 where n: "next_n rs (nat m) ?s3 = (r, s4)" by (cases "next_n rs (nat m) ?s3")
  have s3: "s\<lparr>last_subset := num_subsets s - 1, order := initial_order s,
        generator := RandomState rs (seed s)\<rparr> = ?s3"
    by (simp add: post_construction_def)
  from assms n have r: "r = Inr out"
    and s': "s' = s4\<lparr>generator := generator s, order := order s, last_subset := last_subset s\<rparr>"
    by (cases r; simp add: get_samples_def Let_def s3)+
  show "fst (next_n rs (nat m) ?s3) = Inr out" using n r by simp
  have "same_config ?s3 s4" using next_n_config[of ?s3 rs "nat m"] n by simp
  then have "same_config s s4"
    by (simp add: same_config_def post_construction_def)
  then show "s' = s" unfolding s' same_config_def
    by (intro Sampler.equality) simp_all
qed

subsection \<open>Runs of draws\<close>

lemma next_n_add:
  "next_n rs (a + b) s =
     (case next_n rs a s of
        (Inl e, s1) \<Rightarrow> (Inl e, s1)
      | (Inr xs, s1) \<Rightarrow>
          (case next_n rs b s1 of
             (Inl e, s2) \<Rightarrow> (Inl e, s2)
           | (Inr ys, s2) \<Rightarrow> (Inr (xs @ ys), s2)))"
  by (induction a arbitrary: s) (auto split: prod.splits sum.splits)

text \<open>A stretch of draws between two reshuffles walks along the working order.\<close>

lemma next_n_walk:
  assumes "iterator s = Some next_order" and "order s = Some p"
    and "num_subsets s = int (length p)" and "last_subset s = int c - 1"
    and "c + k \<le> length p" and "shuffle s \<longrightarrow> 0 < c \<or> k = 0"
  shows "next_n rs k s = (Inr (take k (drop c p)), s\<lparr>last_subset := int (c + k) - 1\<rparr>)"
  using assms
proof (induction k arbitrary: s c)
  case 0
  then show ?case by simp
next
  case (Suc k)
  let ?s1 = "s\<lparr>last_subset := int c\<rparr>"
  have c: "c < length p" using Suc.prems by simp
  have nosh: "\<not> (shuffle s \<and> last_subset s = num_subsets s - 1)"
    using Suc.prems by auto
  have m: "(last_subset s + 1) mod num_subsets s = int c"
    using Suc.prems c by simp
  have one: "sampler_next rs s = (Inr (p ! c), ?s1)"
    using Suc.prems(1,2,3) nosh c m
    by (auto simp: sampler_next_def sampler_next_order_def Let_def py_index_def)
  have rest: "next_n rs k ?s1 = (Inr (take k (drop (Suc c) p)), ?s1\<lparr>last_subset := int (Suc c + k) - 1\<rparr>)"
    using Suc.prems by (intro Suc.IH) auto
  have "take (Suc k) (drop c p) = p ! c # take k (drop (Suc c) p)"
    using c by (simp add: Cons_nth_drop_Suc[symmetric])
  then show ?case using one rest by simp
qed

lemma next_n_block:
  assumes perm: "\<And>g xs. mset (fst (permutation rs g xs)) = mset xs"
    and n: "0 < n" and b: "block_start s n"
  shows "\<exists>p s'. next_n rs n s = (Inr p, s') \<and> mset p = mset (map int [0..<n]) \<and> block_start s' n"
proof -
  from b obtain p0 where p0: "order s = Some p0" "mset p0 = mset (map int [0..<n])"
    by (auto simp: block_start_def split: option.splits)
  define p where "p = fst (permutation rs (generator s) p0)"
  define g where "g = snd (permutation rs (generator s) p0)"
  have mp: "mset p = mset (map int [0..<n])" using perm[of "generator s" p0] p0 by (simp add: p_def)
  then have lp: "length p = n" by (metis length_map length_upt mset_eq_length minus_nat.diff_0)
  let ?s1 = "s\<lparr>order := Some p, generator := g, last_subset := 0\<rparr>"
  have it: "iterator s = Some next_order" "shuffle s" "num_subsets s = int n" "last_subset s = int n - 1"
    using b by (auto simp: block_start_def)
  have one: "sampler_next rs s = (Inr (p ! 0), ?s1)"
    using it p0 n lp
    by (simp add: sampler_next_def sampler_next_order_def Let_def py_index_def p_def g_def)
  obtain k where k: "n = Suc k" using n by (cases n) auto
  have rest: "next_n rs k ?s1 = (Inr (take k (drop 1 p)), ?s1\<lparr>last_subset := int (1 + k) - 1\<rparr>)"
    using it lp k by (intro next_n_walk) auto
  have "p ! 0 # take k (drop 1 p) = p" using lp k by (cases p) auto
  then have all: "next_n rs n s = (Inr p, ?s1\<lparr>last_subset := int (1 + k) - 1\<rparr>)"
    using one rest k by simp
  have "block_start (?s1\<lparr>last_subset := int (1 + k) - 1\<rparr>) n"
    using it mp k by (simp add: block_start_def)
  then show ?thesis using all mp by blast
qed

lemma next_n_blocks:
  assumes perm: "\<And>g xs. mset (fst (permutation rs g xs)) = mset xs"
    and n: "0 < n" and b: "block_start s n"
  shows "\<exists>ds s'. next_n rs (k * n) s = (Inr ds, s') \<and> length ds = k * n \<and> block_start s' n \<and>
           (\<forall>j<k. mset (take n (drop (j * n) ds)) = mset (map int [0..<n]))"
proof (induction k)
  case 0
  then show ?case using b by simp
next
  case (Suc k)
  then obtain ds s1 where ds: "next_n rs (k * n) s = (Inr ds, s1)" "length ds = k * n"
    "block_start s1 n" "\<forall>j<k. mset (take n (drop (j * n) ds)) = mset (map int [0..<n])"
    by blast
  from next_n_block[OF perm n ds(3)] obtain p s2 where
    p: "next_n rs n s1 = (Inr p, s2)" "mset p = mset (map int [0..<n])" "block_start s2 n"
    by blast
  have lp: "length p = n" using p(2) by (metis length_map length_upt mset_eq_length minus_nat.diff_0)
  have run: "next_n rs (Suc k * n) s = (Inr (ds @ p), s2)"
    using ds(1) p(1) next_n_add[of rs "k * n" n s] by (simp add: add.commute)
  have blocks: "mset (take n (drop (j * n) (ds @ p))) = mset (map int [0..<n])" if "j < Suc k" for j
  proof (cases "j < k")
    case True
    then have "Suc j \<le> k" by simp
    then have "Suc j * n \<le> k * n" by (intro mult_le_mono1)
    then have "j * n + n \<le> length ds" using ds(2) by simp
    then have "take n (drop (j * n) (ds @ p)) = take n (drop (j * n) ds)" by simp
    then show ?thesis using ds(4) True by simp
  next
    case False
    then have "j = k" using that by simp
    then show ?thesis using ds(2) p(2) lp by simp
  qed
  show ?case using run blocks ds(2) lp p(3) by auto
qed

lemma rwor_block_start:
  "randomWithoutReplacement rs now (int n) sd True = Inr s0 \<Longrightarrow> block_start s0 n"
  by (auto simp: randomWithoutReplacement_def Sampler_init_def block_start_def Let_def)

subsection \<open>get_samples replays and restores\<close>

lemma run_next_only:
  "run rs cs s = (Inr outs, s') \<Longrightarrow> next_n rs (next_calls cs) s = (Inr (drawn outs), s')"
proof (induction cs arbitrary: s outs)
  case Nil
  then show ?case by simp
next
  case (Cons c cs)
  show ?case
  proof (cases c)
    case Next
    with Cons.prems obtain i s1 outs1 where
      a: "sampler_next rs s = (Inr i, s1)" "run rs cs s1 = (Inr outs1, s')" "outs = Drawn i # outs1"
      by (auto split: prod.splits sum.splits)
    from Cons.IH[OF a(2)] a(1,3) Next show ?thesis by simp
  next
    case (GetSamples m)
    with Cons.prems obtain xs s1 outs1 where
      a: "get_samples rs m s = (Inr xs, s1)" "run rs cs s1 = (Inr outs1, s')" "outs = Samples xs # outs1"
      by (auto split: prod.splits sum.splits)
    have "s1 = s" using get_samples_returns(1)[OF a(1)] .
    with Cons.IH[of s outs1] a(2,3) GetSamples show ?thesis by simp
  qed
qed

lemma run_replayed:
  "run rs cs s = (Inr outs, s') \<Longrightarrow> list_all2 (replayed rs (post_construction rs s)) cs outs"
proof (induction cs arbitrary: s outs)
  case Nil
  then show ?case by simp
next
  case (Cons c cs)
  show ?case
  proof (cases c)
    case Next
    with Cons.prems obtain i s1 outs1 where
      a: "sampler_next rs s = (Inr i, s1)" "run rs cs s1 = (Inr outs1, s')" "outs = Drawn i # outs1"
      by (auto split: prod.splits sum.splits)
    have "same_config s s1" using sampler_next_config[of s rs] a(1) by simp
    then have "post_construction rs s1 = post_construction rs s" by (rule same_config_post)
    with Cons.IH[OF a(2)] a(3) Next show ?thesis by simp
  next
    case (GetSamples m)
    with Cons.prems obtain xs s1 outs1 where
      a: "get_samples rs m s = (Inr xs, s1)" "run rs cs s1 = (Inr outs1, s')" "outs = Samples xs # outs1"
      by (auto split: prod.splits sum.splits)
    have s1: "s1 = s" using get_samples_returns(1)[OF a(1)] .
    have "fst (next_n rs (nat m) (post_construction rs s)) = Inr xs"
      using get_samples_returns(2)[OF a(1)] .
    with Cons.IH[of s outs1] a(2,3) s1 GetSamples show ?thesis by simp
  qed
qed

lemma factory_post:
  assumes "sequential rs now n = Inr s0 \<or> customOrder rs now customlist = Inr s0 \<or>
       hermanMeyer rs now n = Inr s0 \<or> staggered rs now n offset = Inr s0 \<or>
       randomWithReplacement rs now n pr sd = Inr s0 \<or>
       randomWithoutReplacement rs now n sd shuf = Inr s0"
  shows "post_construction rs s0 = s0"
  using assms
  by (auto simp: sequential_def customOrder_def hermanMeyer_def staggered_def
      randomWithReplacement_def randomWithoutReplacement_def Sampler_init_post Let_def
      split: sum.splits if_splits option.splits)

text \<open>
  Claim C4. Take a sampler \<open>s0\<close> as any of the six factories returns it, and a caller that
  mixes \<open>next()\<close> and \<open>get_samples(m)\<close> calls in any order, none of them raising. Then
  (1) the values the \<open>next()\<close> calls return, and the state the sampler ends in, are exactly
  those of the same number of \<open>next()\<close> calls with no \<open>get_samples\<close> in between, so
  \<open>get_samples\<close> leaves cursor, working order and generator as they were; and
  (2) every \<open>get_samples(m)\<close> returns the first m draws from the post-construction state
  \<open>s0\<close>, wherever in the run it is called; two calls with the same m therefore return the
  same list.
\<close>

theorem get_samples_replay:
  assumes built: "sequential rs now n = Inr s0 \<or> customOrder rs now customlist = Inr s0 \<or>
       hermanMeyer rs now n = Inr s0 \<or> staggered rs now n offset = Inr s0 \<or>
       randomWithReplacement rs now n pr sd = Inr s0 \<or>
       randomWithoutReplacement rs now n sd shuf = Inr s0"
    and calls: "run rs cs s0 = (Inr outs, s)"
  shows "next_n rs (next_calls cs) s0 = (Inr (drawn outs), s) \<and>
         list_all2 (replayed rs s0) cs outs"
  using run_next_only[OF calls] run_replayed[OF calls] factory_post[OF built] by simp

lemma test_sampler_built:
  "randomWithoutReplacement test_random 0 3 (Some 1) True =
     Inr (Sampler_init test_random 0 3 ''random_without_replacement'' True (Some [0, 1, 2]) None (Some 1))"
  by (simp add: randomWithoutReplacement_def Let_def upt_rec eval_nat_numeral)

lemma test_sampler_run:
  "fst (run test_random [Next, GetSamples 4, Next, Next, GetSamples 4, Next]
     (Sampler_init test_random 0 3 ''random_without_replacement'' True (Some [0, 1, 2]) None (Some 1))) =
   Inr [Drawn 2, Samples [2, 0, 1, 2], Drawn 0, Drawn 1, Samples [2, 0, 1, 2], Drawn 2]"
  by (simp add: get_samples_def Sampler_init_def sampler_next_def sampler_next_order_def
      py_index_def test_random_def Let_def eval_nat_numeral)

theorem get_samples_replay_witness:
  "randomWithoutReplacement test_random 0 3 (Some 1) True =
     Inr (Sampler_init test_random 0 3 ''random_without_replacement'' True (Some [0, 1, 2]) None (Some 1)) \<and>
   fst (run test_random [Next, GetSamples 4, Next, Next, GetSamples 4, Next]
     (Sampler_init test_random 0 3 ''random_without_replacement'' True (Some [0, 1, 2]) None (Some 1))) =
   Inr [Drawn 2, Samples [2, 0, 1, 2], Drawn 0, Drawn 1, Samples [2, 0, 1, 2], Drawn 2] \<and>
   fst (next_n test_random 4
     (Sampler_init test_random 0 3 ''random_without_replacement'' True (Some [0, 1, 2]) None (Some 1))) =
   Inr [2, 0, 1, 2]"
proof -
  let ?s0 = "Sampler_init test_random 0 3 ''random_without_replacement'' True (Some [0, 1, 2]) None (Some 1)"
  let ?cs = "[Next, GetSamples 4, Next, Next, GetSamples 4, Next]"
  let ?outs = "[Drawn 2, Samples [2, 0, 1, 2], Drawn 0, Drawn 1, Samples [2, 0, 1, 2], Drawn 2]"
  obtain s where r: "run test_random ?cs ?s0 = (Inr ?outs, s)"
    using test_sampler_run by (cases "run test_random ?cs ?s0") simp
  have b: "sequential test_random 0 3 = Inr ?s0 \<or> customOrder test_random 0 [] = Inr ?s0 \<or>
       hermanMeyer test_random 0 3 = Inr ?s0 \<or> staggered test_random 0 3 0 = Inr ?s0 \<or>
       randomWithReplacement test_random 0 3 None (Some 1) = Inr ?s0 \<or>
       randomWithoutReplacement test_random 0 3 (Some 1) True = Inr ?s0"
    using test_sampler_built by simp
  from get_samples_replay[OF b r]
  have "next_n test_random (next_calls ?cs) ?s0 = (Inr (drawn ?outs), s)"
    and "list_all2 (replayed test_random ?s0) ?cs ?outs" by simp_all
  then have "fst (next_n test_random 4 ?s0) = Inr [2, 0, 1, 2]" by simp
  then show ?thesis using test_sampler_built test_sampler_run by simp
qed

subsection \<open>Sampling without replacement\<close>

lemma range_mset_length: "mset p = mset (map int [0..<n]) \<Longrightarrow> length p = n"
  using mset_eq_length by fastforce

text \<open>
  Claim C6. For \<open>Sampler.randomWithoutReplacement(n, seed=sd)\<close> with \<open>shuffle=True\<close> and
  \<open>1 \<le> n\<close>, over a generator whose \<open>permutation\<close> returns a permutation of its argument:
  the draws never raise, and for every k the draws \<open>k*n, ..., k*n+n-1\<close> are a permutation of
  \<open>0, ..., n-1\<close>; a second sampler constructed with the same seed (at another clock
  reading) produces the same draws and the same states.
\<close>

theorem randomWithoutReplacement_blocks:
  assumes perm: "\<forall>g xs. mset (fst (permutation rs g xs)) = mset xs"
    and n: "1 \<le> n"
    and built: "randomWithoutReplacement rs now n (Some sd) True = Inr s0"
    and again: "randomWithoutReplacement rs now' n (Some sd) True = Inr s0'"
  shows "(\<exists>ds s. next_n rs (Suc k * nat n) s0 = (Inr ds, s) \<and> length ds = Suc k * nat n \<and>
            mset (take (nat n) (drop (k * nat n) ds)) = mset (map int [0..<nat n])) \<and>
         next_n rs m s0' = next_n rs m s0"
proof -
  have n': "0 < nat n" and nn: "int (nat n) = n" using n by simp_all
  have p: "\<And>g xs. mset (fst (permutation rs g xs)) = mset xs" using perm by simp
  have b: "block_start s0 (nat n)"
    using built rwor_block_start[of rs now "nat n" "Some sd" s0] nn by simp
  from next_n_blocks[OF p n' b, of "Suc k"]
  obtain ds s where ds: "next_n rs (Suc k * nat n) s0 = (Inr ds, s)" "length ds = Suc k * nat n"
    "\<forall>j<Suc k. mset (take (nat n) (drop (j * nat n) ds)) = mset (map int [0..<nat n])"
    by blast
  have same: "s0' = s0"
    using built again by (simp add: randomWithoutReplacement_def Sampler_init_def Let_def)
  show ?thesis using ds same by auto
qed

lemma mset_rotate1: "mset (rotate1 xs) = mset xs"
  by (cases xs) simp_all

lemma mset_rotate: "mset (rotate k xs) = mset xs"
  by (induction k) (simp_all add: mset_rotate1)

lemma test_random_perm: "\<forall>g xs. mset (fst (permutation test_random g xs)) = mset xs"
  by (simp add: test_random_def mset_rotate mset_rotate1)

lemma test_blocks:
  "fst (next_n test_random 6
     (Sampler_init test_random 0 3 ''random_without_replacement'' True (Some [0, 1, 2]) None (Some 1))) =
   Inr [2, 0, 1, 2, 0, 1]"
  by (simp add: Sampler_init_def sampler_next_def sampler_next_order_def
      py_index_def test_random_def Let_def eval_nat_numeral)

theorem randomWithoutReplacement_blocks_witness:
  "(\<forall>g xs. mset (fst (permutation test_random g xs)) = mset xs) \<and> (1::int) \<le> 3 \<and>
   randomWithoutReplacement test_random 0 3 (Some 1) True =
     Inr (Sampler_init test_random 0 3 ''random_without_replacement'' True (Some [0, 1, 2]) None (Some 1)) \<and>
   randomWithoutReplacement test_random 77 3 (Some 1) True =
     Inr (Sampler_init test_random 0 3 ''random_without_replacement'' True (Some [0, 1, 2]) None (Some 1)) \<and>
   fst (next_n test_random 6
     (Sampler_init test_random 0 3 ''random_without_replacement'' True (Some [0, 1, 2]) None (Some 1))) =
     Inr [2, 0, 1, 2, 0, 1] \<and>
   mset (take 3 (drop 3 [2, 0, 1, 2, 0, 1])) = mset [0, 1, 2 :: int]"
proof -
  let ?s0 = "Sampler_init test_random 0 3 ''random_without_replacement'' True (Some [0, 1, 2]) None (Some 1)"
  have b1: "randomWithoutReplacement test_random 0 3 (Some 1) True = Inr ?s0"
    by (simp add: randomWithoutReplacement_def Let_def upt_rec eval_nat_numeral)
  have b2: "randomWithoutReplacement test_random 77 3 (Some 1) True = Inr ?s0"
    by (simp add: randomWithoutReplacement_def Sampler_init_def Let_def upt_rec eval_nat_numeral)
  have n: "(1::int) \<le> 3" by simp
  from randomWithoutReplacement_blocks[OF test_random_perm n b1 b2, of 1 6]
  obtain ds s where ds: "next_n test_random (Suc 1 * nat 3) ?s0 = (Inr ds, s)"
    "mset (take (nat 3) (drop (1 * nat 3) ds)) = mset (map int [0..<nat 3])"
    by blast
  have six: "Suc 1 * nat 3 = 6" by simp
  have "ds = [2, 0, 1, 2, 0, 1]" using ds(1) test_blocks unfolding six by simp
  then have "mset (take 3 (drop 3 [2, 0, 1, 2, 0, 1])) = mset [0, 1, 2 :: int]"
    using ds(2) by (simp add: upt_rec eval_nat_numeral)
  then show ?thesis using test_random_perm b1 b2 test_blocks by simp
qed

subsection \<open>Herman-Meyer order\<close>

lemma herman_meyer_factors_12: "herman_meyer_factors 12 = [2, 2, 3]"
  by (simp add: herman_meyer_factors_def factor_loop.simps)

lemma herman_meyer_order_12: "herman_meyer_order 12 = Inr [0, 6, 3, 9, 1, 7, 4, 10, 2, 8, 5, 11]"
proof -
  have u: "[0..<12] = [0, 1, 2, 3, 4, 5, 6, 7, 8, 9, 10, 11]" "[0..<3] = [0, 1, 2]"
    by (simp_all add: upt_rec)
  have r: "replicate 12 (0::int) = [0, 0, 0, 0, 0, 0, 0, 0, 0, 0, 0, 0]"
    by (simp add: eval_nat_numeral)
  show ?thesis
    unfolding herman_meyer_order_def herman_meyer_factors_12 Let_def
    by (simp add: factor_pass_def element_step_def u r)
qed

text \<open>
  Claim C7. \<open>Sampler.hermanMeyer(12)\<close> returns a sampler, and its \<open>get_samples(16)\<close> returns
  exactly \<open>[0,6,3,9,1,7,4,10,2,8,5,11,0,6,3,9]\<close>: the order built from the factors
  \<open>[2,2,3]\<close> of 12, cycled past one period. This holds for every generator and clock
  reading.
\<close>

theorem hermanMeyer_12_get_samples_16:
  "\<exists>s. hermanMeyer rs now 12 = Inr s \<and>
       fst (get_samples rs 16 s) = Inr [0, 6, 3, 9, 1, 7, 4, 10, 2, 8, 5, 11, 0, 6, 3, 9]"
  by (simp add: hermanMeyer_def herman_meyer_order_12 get_samples_def Sampler_init_def
      sampler_next_def sampler_next_order_def py_index_def Let_def eval_nat_numeral)

lemma factor_loop_no_divisor:
  "2 \<le> i \<Longrightarrow> (\<forall>d. i \<le> d \<and> d * d \<le> p \<longrightarrow> p mod d \<noteq> 0) \<Longrightarrow> factor_loop i p fs = (p, fs)"
proof (induction i p fs rule: factor_loop.induct)
  case (1 i n_variable factors)
  show ?case
  proof (cases "i * i \<le> n_variable")
    case True
    then have nd: "n_variable mod i \<noteq> 0" using "1.prems" by simp
    have "factor_loop (i + 1) n_variable factors = (n_variable, factors)"
      using "1.prems" True nd by (intro "1.IH"(1)) auto
    then show ?thesis using True nd "1.prems"(1) by (subst factor_loop.simps) simp
  next
    case False
    then show ?thesis by (subst factor_loop.simps) simp
  qed
qed

lemma herman_meyer_factors_prime:
  assumes "is_prime p"
  shows "herman_meyer_factors p = [p]"
proof -
  have p2: "2 \<le> p" and nd: "\<And>d. 2 \<le> d \<Longrightarrow> d < p \<Longrightarrow> p mod d \<noteq> 0"
    using assms by (auto simp: is_prime_def)
  have "p mod d \<noteq> 0" if "2 \<le> d" "d * d \<le> p" for d
  proof -
    have "d * 2 \<le> d * d" using that by (intro mult_left_mono) auto
    then have "d < p" using that by linarith
    then show ?thesis using nd that by simp
  qed
  then have "factor_loop 2 p [] = (p, [])"
    by (intro factor_loop_no_divisor) auto
  then show ?thesis using p2 by (simp add: herman_meyer_factors_def)
qed

lemma hermanMeyer_prime_returns:
  "is_prime p \<Longrightarrow> \<exists>s. hermanMeyer rs now p = Inr s"
  by (simp add: hermanMeyer_def herman_meyer_order_def herman_meyer_factors_prime Let_def)

lemma herman_meyer_factors_7: "herman_meyer_factors 7 = [7]"
  by (simp add: herman_meyer_factors_def factor_loop.simps)

lemma herman_meyer_order_7: "herman_meyer_order 7 = Inr [0, 1, 2, 3, 4, 5, 6]"
proof -
  have u: "[0..<7] = [0, 1, 2, 3, 4, 5, 6]" "[0..<1] = [0]"
    by (simp_all add: upt_rec)
  have r: "replicate 7 (0::int) = [0, 0, 0, 0, 0, 0, 0]"
    by (simp add: eval_nat_numeral)
  show ?thesis
    unfolding herman_meyer_order_def herman_meyer_factors_7 Let_def
    by (simp add: factor_pass_def element_step_def u r)
qed

text \<open>
  Claim C8 says that \<open>Sampler.hermanMeyer(p)\<close> raises ValueError for every prime p. The
  code does not: the factor list of a prime p is \<open>[p]\<close>, not empty, so the test
  \<open>n_factors == 0\<close> fails and a sampler is returned. At \<open>p = 7\<close> the call returns a sampler
  with the sequential order \<open>[0,1,2,3,4,5,6]\<close>, the very outcome the error message says
  is refused.
\<close>

theorem hermanMeyer_7_no_error:
  "hermanMeyer rs now 7 =
     Inr (Sampler_init rs now 7 ''herman_meyer'' False (Some [0, 1, 2, 3, 4, 5, 6]) None None)"
  by (simp add: hermanMeyer_def herman_meyer_order_7)

subsection \<open>Samplers over an order never raise\<close>

text \<open>With a \<open>permutation\<close> that keeps the length of its argument, a sampler over an order
  answers every \<open>next()\<close> and every \<open>get_samples\<close>; the factories that build an order
  return such samplers. The order of \<open>staggered\<close> is a permutation of \<open>0, ..., n-1\<close>.\<close>

lemma sampler_next_ok:
  assumes len: "\<And>g xs. length (fst (permutation rs g xs)) = length xs" and ok: "order_ok s"
  shows "\<exists>i s'. sampler_next rs s = (Inr i, s') \<and> order_ok s'"
proof -
  from ok obtain p where p: "order s = Some p" "int (length p) = num_subsets s"
    by (auto simp: order_ok_def)
  have n: "1 \<le> num_subsets s" "iterator s = Some next_order" using ok by (simp_all add: order_ok_def)
  let ?c = "(last_subset s + 1) mod num_subsets s"
  have c: "0 \<le> ?c" "?c < num_subsets s" using n by simp_all
  let ?q = "fst (permutation rs (generator s) p)"
  have lq: "int (length ?q) = num_subsets s" using len p by simp
  show ?thesis
    using p n c lq ok
    by (auto simp: sampler_next_def sampler_next_order_def Let_def py_index_def order_ok_def)
qed

lemma next_n_ok:
  assumes len: "\<And>g xs. length (fst (permutation rs g xs)) = length xs"
  shows "order_ok s \<Longrightarrow> \<exists>out s'. next_n rs k s = (Inr out, s') \<and> order_ok s'"
proof (induction k arbitrary: s)
  case 0
  then show ?case by simp
next
  case (Suc k)
  from sampler_next_ok[OF len Suc.prems] obtain i s1 where
    a: "sampler_next rs s = (Inr i, s1)" "order_ok s1" by blast
  from Suc.IH[OF a(2)] obtain out s2 where b: "next_n rs k s1 = (Inr out, s2)" "order_ok s2" by blast
  show ?case using a b by simp
qed

lemma get_samples_ok:
  assumes len: "\<And>g xs. length (fst (permutation rs g xs)) = length xs" and ok: "order_ok s"
  shows "\<exists>out. get_samples rs m s = (Inr out, s)"
proof -
  have "order_ok (post_construction rs s)"
    using ok by (auto simp: order_ok_def post_construction_def)
  from next_n_ok[OF len this, of "nat m"] obtain out s4 where
    n: "next_n rs (nat m) (post_construction rs s) = (Inr out, s4)" by blast
  have s3: "s\<lparr>last_subset := num_subsets s - 1, order := initial_order s,
        generator := RandomState rs (seed s)\<rparr> = post_construction rs s"
    by (simp add: post_construction_def)
  obtain s' where g: "get_samples rs m s = (Inr out, s')"
    using n by (simp add: get_samples_def Let_def s3)
  from get_samples_returns(1)[OF g] g show ?thesis by simp
qed

lemma run_ok:
  assumes len: "\<And>g xs. length (fst (permutation rs g xs)) = length xs"
  shows "order_ok s \<Longrightarrow> \<exists>outs s'. run rs cs s = (Inr outs, s')"
proof (induction cs arbitrary: s)
  case Nil
  then show ?case by simp
next
  case (Cons c cs)
  show ?case
  proof (cases c)
    case Next
    from sampler_next_ok[OF len Cons.prems] obtain i s1 where
      a: "sampler_next rs s = (Inr i, s1)" "order_ok s1" by blast
    from Cons.IH[OF a(2)] obtain outs s2 where "run rs cs s1 = (Inr outs, s2)" by blast
    then show ?thesis using a Next by simp
  next
    case (GetSamples m)
    from get_samples_ok[OF len Cons.prems] obtain out where a: "get_samples rs m s = (Inr out, s)"
      by blast
    from Cons.IH[OF Cons.prems] obtain outs s2 where "run rs cs s = (Inr outs, s2)" by blast
    then show ?thesis using a GetSamples by simp
  qed
qed

lemma length_element_step:
  "length (snd (snd (element_step fs k c e acc))) = length (snd (snd acc))"
  by (cases acc) (simp add: element_step_def Let_def)

lemma length_fold_element_step:
  "length (snd (snd (fold (element_step fs k c) es acc))) = length (snd (snd acc))"
  by (induction es arbitrary: acc) (simp_all add: length_element_step)

lemma length_factor_pass: "length (snd (factor_pass n fs k acc)) = length (snd acc)"
  by (cases acc) (simp add: factor_pass_def Let_def length_fold_element_step)

lemma length_fold_factor_pass:
  "length (snd (fold (factor_pass n fs) ks acc)) = length (snd acc)"
  by (induction ks arbitrary: acc) (simp_all add: length_factor_pass)

lemma herman_meyer_order_length: "herman_meyer_order n = Inr ord \<Longrightarrow> length ord = nat n"
  by (auto simp: herman_meyer_order_def Let_def length_fold_factor_pass split: if_splits)

lemma slice_residue:
  assumes "i < off"
  shows "(i \<le> j \<and> (j - i) mod off = 0) = (j mod off = (i::nat))"
proof
  assume a: "i \<le> j \<and> (j - i) mod off = 0"
  then obtain k where "j - i = off * k" by (auto simp: mod_eq_0_iff_dvd)
  then have "j = i + off * k" using a by simp
  then show "j mod off = i" using assms by simp
next
  assume b: "j mod off = i"
  have "j mod off \<le> j" by simp
  moreover have "(j - j mod off) mod off = 0" by (simp add: minus_mod_eq_mult_div)
  ultimately show "i \<le> j \<and> (j - i) mod off = 0" using b by simp
qed

lemma sum_list_filter_mset_residue:
  "(\<Sum>i\<leftarrow>[0..<k]. filter_mset (\<lambda>e. g e = i) M) = filter_mset (\<lambda>e. g e < k) M"
proof (induction k)
  case 0
  then show ?case by simp
next
  case (Suc k)
  have "filter_mset (\<lambda>e. g e < k) M + filter_mset (\<lambda>e. g e = k) M = filter_mset (\<lambda>e. g e < Suc k) M"
    by (rule multiset_eqI) auto
  then show ?case using Suc by simp
qed

lemma sum_list_image_mset:
  "(\<Sum>i\<leftarrow>ks. image_mset f (A i)) = image_mset f (\<Sum>i\<leftarrow>ks. A i)"
  by (induction ks) simp_all

lemma mset_staggered_order:
  assumes "0 < off"
  shows "mset (concat (map (\<lambda>i. py_slice_step xs i off) [0..<off])) = mset xs"
proof -
  let ?E = "enumerate 0 xs"
  have eq: "mset (py_slice_step xs i off) =
      image_mset snd (filter_mset (\<lambda>e. fst e mod off = i) (mset ?E))" if "i < off" for i
  proof -
    have "filter (\<lambda>(j, x). i \<le> j \<and> (j - i) mod off = 0) ?E = filter (\<lambda>e. fst e mod off = i) ?E"
      by (intro filter_cong refl) (auto simp: slice_residue[OF that])
    then show ?thesis by (simp add: py_slice_step_def)
  qed
  have "mset (concat (map (\<lambda>i. py_slice_step xs i off) [0..<off])) =
      (\<Sum>i\<leftarrow>[0..<off]. mset (py_slice_step xs i off))"
    by (simp add: mset_concat o_def)
  also have "\<dots> = (\<Sum>i\<leftarrow>[0..<off]. image_mset snd (filter_mset (\<lambda>e. fst e mod off = i) (mset ?E)))"
    by (intro arg_cong[where f = sum_list] map_cong refl) (simp add: eq)
  also have "\<dots> = image_mset snd (filter_mset (\<lambda>e. fst e mod off < off) (mset ?E))"
    by (simp add: sum_list_image_mset sum_list_filter_mset_residue)
  also have "\<dots> = image_mset snd (mset ?E)" using assms by simp
  also have "\<dots> = mset (map snd ?E)" by (simp only: mset_map)
  also have "\<dots> = mset xs" by (simp only: map_snd_enumerate)
  finally show ?thesis .
qed

lemma factories_order_ok:
  assumes "(1 \<le> n \<and> sequential rs now n = Inr s0) \<or>
      (customlist \<noteq> [] \<and> customOrder rs now customlist = Inr s0) \<or>
      hermanMeyer rs now n = Inr s0 \<or>
      (0 < offset \<and> staggered rs now n offset = Inr s0) \<or>
      (1 \<le> n \<and> randomWithoutReplacement rs now n sd shuf = Inr s0)"
  shows "order_ok s0"
proof -
  consider (seq) "1 \<le> n" "sequential rs now n = Inr s0"
    | (cus) "customlist \<noteq> []" "customOrder rs now customlist = Inr s0"
    | (hm) "hermanMeyer rs now n = Inr s0"
    | (stag) "0 < offset" "staggered rs now n offset = Inr s0"
    | (rwor) "1 \<le> n" "randomWithoutReplacement rs now n sd shuf = Inr s0"
    using assms by blast
  then show ?thesis
  proof cases
    case seq
    then show ?thesis by (auto simp: sequential_def Sampler_init_def order_ok_def Let_def)
  next
    case cus
    then show ?thesis
      by (cases customlist) (auto simp: customOrder_def Sampler_init_def order_ok_def Let_def)
  next
    case hm
    then obtain ord where o: "herman_meyer_order n = Inr ord"
      "s0 = Sampler_init rs now n ''herman_meyer'' False (Some ord) None None"
      by (auto simp: hermanMeyer_def split: sum.splits)
    have l: "length ord = nat n" by (rule herman_meyer_order_length[OF o(1)])
    have "2 \<le> n"
    proof (rule ccontr)
      assume "\<not> 2 \<le> n"
      then have "factor_loop 2 n [] = (n, [])" by (subst factor_loop.simps) simp
      then have "herman_meyer_factors n = []" using \<open>\<not> 2 \<le> n\<close> by (simp add: herman_meyer_factors_def)
      then show False using o(1) by (simp add: herman_meyer_order_def)
    qed
    then show ?thesis using o(2) l by (simp add: Sampler_init_def order_ok_def)
  next
    case stag
    then have lt: "offset < n" and s0: "s0 = Sampler_init rs now n ''staggered'' False
        (Some (concat (map (\<lambda>i. py_slice_step (map int [0..<nat n]) i (nat offset)) [0..<nat offset])))
        None None"
      by (auto simp: staggered_def Let_def split: if_splits)
    have "0 < nat offset" using stag(1) by simp
    from mset_staggered_order[OF this, of "map int [0..<nat n]"]
    have "length (concat (map (\<lambda>i. py_slice_step (map int [0..<nat n]) i (nat offset)) [0..<nat offset]))
        = length (map int [0..<nat n])"
      by (rule mset_eq_length)
    then show ?thesis using s0 lt stag(1) by (simp add: Sampler_init_def order_ok_def)
  next
    case rwor
    then show ?thesis
      by (auto simp: randomWithoutReplacement_def Sampler_init_def order_ok_def Let_def)
  qed
qed

section \<open>SPDHG step sizes\<close>













lemma check_convergence_first_block:
  assumes "1 \<le> spdhg_ndual_subsets st" and "spdhg_tau st = Number t"
    and "spdhg_sigma st = Number s # ss" and "spdhg_norms st = n # ns"
    and "spdhg_prob_weights st = p # ps"
  shows "check_convergence st = Inr (Some (\<not> s * t * n\<^sup>2 > p))"
proof -
  obtain k where k: "nat (spdhg_ndual_subsets st) = Suc k"
    using assms(1) by (cases "nat (spdhg_ndual_subsets st)") auto
  have "[0..<Suc k] = 0 # [1..<Suc k]" by (simp add: upt_rec)
  then show ?thesis
    using assms(2-) unfolding check_convergence_def k
    by (simp add: check_convergence_body_def py_index_def)
qed

text \<open>
  Claim C3 says \<open>check_convergence\<close> returns false when
  \<open>sigma[i]*tau*norms[i]**2 > prob_weights[i]\<close> for any block i. The code decides on block 0
  alone: \<open>return True\<close> stands inside the loop. With two blocks, norms \<open>[1, 2]\<close>,
  probability weights \<open>[0.5, 0.5]\<close>, and the step sizes \<open>sigma = [1, 1]\<close>, \<open>tau = 0.5\<close> that
  \<open>set_step_sizes\<close> accepts, block 1 violates the criterion (\<open>1 * 0.5 * 4 > 0.5\<close>) and
  \<open>check_convergence\<close> returns True.
\<close>

theorem check_convergence_ignores_later_blocks:
  "\<exists>st'. set_step_sizes (Some [Number 1, Number 1]) (Some (Number (1 / 2))) test_spdhg = Inr st' \<and>
      check_convergence st' = Inr (Some True) \<and> criterion_violated st' 1"
  by (simp add: set_step_sizes_def resolve_tau_def test_spdhg_def check_convergence_def
      check_convergence_body_def py_index_def criterion_violated_def upt_rec Let_def)

section \<open>ISTA and FISTA set-up\<close>

text \<open>
  Claim C9. When each of \<open>f\<close> and \<open>g\<close> is None or an instance of ZeroFunction, the
  constructors of ISTA and of FISTA, which run \<open>set_up\<close>, raise ValueError: no instance
  is returned, so no iteration can run. This holds for every \<open>initial\<close>, step size,
  step-size rule and preconditioner.
\<close>

theorem ISTA_FISTA_reject_two_zero_functions:
  assumes "f = None \<or> (\<exists>f0. f = Some f0 \<and> isinstance_ZeroFunction f0)"
    and "g = None \<or> (\<exists>g0. g = Some g0 \<and> isinstance_ZeroFunction g0)"
  shows "\<exists>msg. fst (ISTA_init initial f g step_size step_size_rule preconditioner h) = Inl (ValueError msg) \<and>
          fst (FISTA_init initial f g step_size step_size_rule preconditioner h) = Inl (ValueError msg)"
  using assms
  by (auto simp: ISTA_init_def FISTA_init_def ISTA_set_up_def ZeroFunction_def Let_def)

theorem ISTA_FISTA_reject_two_zero_functions_witness:
  "\<exists>msg. fst (ISTA_init 0 None (Some ZeroFunction) None None None [1 :: real]) = Inl (ValueError msg) \<and>
          fst (FISTA_init 0 None (Some ZeroFunction) None None None [1 :: real]) = Inl (ValueError msg)"
proof -
  have f: "(None :: real Function option) = None \<or> (\<exists>f0. (None :: real Function option) = Some f0 \<and> isinstance_ZeroFunction f0)"
    by simp
  have g: "Some (ZeroFunction :: real Function) = None \<or>
      (\<exists>g0. Some (ZeroFunction :: real Function) = Some g0 \<and> isinstance_ZeroFunction g0)"
    by (simp add: ZeroFunction_def)
  show ?thesis using ISTA_FISTA_reject_two_zero_functions[OF f g] by blast
qed

section \<open>SPDHG update\<close>

lemma two_block_setup_eq:
  "two_block_setup script = (Inr (two_block_spdhg script), two_block_store)"
  by (simp add: two_block_setup_def two_block_spdhg_def two_block_store_def SPDHG_set_up_def
      scripted_sampler_def scaling_operator_def set_step_sizes_def sigma_from_norms_def
      resolve_tau_def py_min_def alloc_def copy_def Let_def eval_nat_numeral)

lemma two_block_wf: "spdhg_wf (two_block_spdhg script) two_block_store"
  by (simp add: spdhg_wf_def two_block_spdhg_def two_block_store_def)





lemma py_index_in_range: "0 \<le> i \<Longrightarrow> i < int (length xs) \<Longrightarrow> py_index xs i = Inr (xs ! nat i)"
  by (simp add: py_index_def)

lemma primal_step_length: "length (SPDHG_primal_step st h) = length h"
  by (simp add: SPDHG_primal_step_def sapyb_def Let_def)

lemma primal_step_other:
  "a \<noteq> spdhg_x st \<Longrightarrow> a \<noteq> spdhg_x_tmp st \<Longrightarrow> SPDHG_primal_step st h ! a = h ! a"
  by (simp add: SPDHG_primal_step_def sapyb_def Let_def)

lemma dual_step_in_range:
  assumes n: "length (spdhg_f st) = length (spdhg_operator st)"
      "length (spdhg_sigma st) = length (spdhg_operator st)"
      "length (spdhg_y_old st) = length (spdhg_operator st)"
      "length (spdhg_prob_weights st) = length (spdhg_operator st)"
    and range: "0 \<le> i" "i < int (length (spdhg_operator st))"
    and pnz: "spdhg_prob_weights st ! nat i \<noteq> 0"
    and yo: "spdhg_y_old st ! nat i < length h"
      "spdhg_y_old st ! nat i \<noteq> spdhg_x_tmp st" "spdhg_y_old st ! nat i \<noteq> spdhg_z st"
      "spdhg_y_old st ! nat i \<noteq> spdhg_zbar st"
    and lt: "spdhg_x_tmp st < length h" "spdhg_z st < length h" "spdhg_zbar st < length h"
  shows "fst (SPDHG_dual_step st i h) = None \<and>
     snd (SPDHG_dual_step st i h) ! (spdhg_y_old st ! nat i) =
       fn_proximal_conjugate (spdhg_f st ! nat i)
         (scale (spdhg_sigma st ! nat i) (direct (spdhg_operator st ! nat i) (h ! spdhg_x st))
            + h ! (spdhg_y_old st ! nat i))
         (spdhg_sigma st ! nat i)"
proof -
  have ix: "py_index (spdhg_operator st) i = Inr (spdhg_operator st ! nat i)"
    "py_index (spdhg_sigma st) i = Inr (spdhg_sigma st ! nat i)"
    "py_index (spdhg_y_old st) i = Inr (spdhg_y_old st ! nat i)"
    "py_index (spdhg_f st) i = Inr (spdhg_f st ! nat i)"
    "py_index (spdhg_prob_weights st) i = Inr (spdhg_prob_weights st ! nat i)"
    using n range by (simp_all add: py_index_in_range)
  show ?thesis
    unfolding SPDHG_dual_step_def ix sum.case
    using pnz yo lt
    by (simp add: Let_def alloc_def sapyb_def subtract_def add_def fill_def nth_append)
qed

text \<open>
  Claim C1, amended. In an \<open>update\<close> whose sampler yields a block index \<open>i\<close> in range, on an
  instance whose containers are distinct objects, the dual ascent forms
  \<open>y_k = sigma[i] * K_i(x) + y_old[i]\<close>: \<open>sigma[i]\<close> multiplies \<open>operator[i].direct(x)\<close>, with
  \<open>x\<close> as the primal step left it, and the stored dual variable is added unscaled (the
  source's comment says \<open>y_k = y_old[i] + sigma[i] * K[i] x\<close>). The proximal map of the
  conjugate of block i is applied to that with parameter \<open>sigma[i]\<close>, and its result is
  what \<open>y_old[i]\<close> holds when \<open>update\<close> returns.
\<close>

theorem update_dual_ascent:
  assumes wf: "spdhg_wf st h"
    and draw: "fst (smp_next si (spdhg_sampler st)) = Inr i"
    and range: "0 \<le> i \<and> i < int (length (spdhg_operator st))"
    and pnz: "spdhg_prob_weights st ! nat i \<noteq> 0"
  shows "fst (SPDHG_update si st h) = None \<and>
     snd (snd (SPDHG_update si st h)) ! (spdhg_y_old st ! nat i) =
       fn_proximal_conjugate (spdhg_f st ! nat i)
         (scale (spdhg_sigma st ! nat i)
              (direct (spdhg_operator st ! nat i) (SPDHG_primal_step st h ! spdhg_x st))
            + h ! (spdhg_y_old st ! nat i))
         (spdhg_sigma st ! nat i)"
proof -
  let ?st1 = "st\<lparr>spdhg_sampler := snd (smp_next si (spdhg_sampler st))\<rparr>"
  let ?hp = "SPDHG_primal_step st h"
  let ?yo = "spdhg_y_old st ! nat i"
  have "length (spdhg_y_old st) = length (spdhg_operator st)" using wf by (simp add: spdhg_wf_def)
  then have k: "nat i < length (spdhg_y_old st)" using range by linarith
  then have mem: "?yo \<in> set (spdhg_y_old st)" by simp
  have d: "?yo \<noteq> spdhg_x st" "?yo \<noteq> spdhg_x_tmp st" "?yo \<noteq> spdhg_z st" "?yo \<noteq> spdhg_zbar st"
    using wf mem by (auto simp: spdhg_wf_def)
  have lt: "?yo < length h" "spdhg_x_tmp st < length h" "spdhg_z st < length h"
    "spdhg_zbar st < length h"
    using wf mem by (auto simp: spdhg_wf_def list_all_iff)
  have n: "length (spdhg_f st) = length (spdhg_operator st)"
    "length (spdhg_sigma st) = length (spdhg_operator st)"
    "length (spdhg_y_old st) = length (spdhg_operator st)"
    "length (spdhg_prob_weights st) = length (spdhg_operator st)"
    using wf by (simp_all add: spdhg_wf_def)
  have dual: "fst (SPDHG_dual_step ?st1 i ?hp) = None \<and>
     snd (SPDHG_dual_step ?st1 i ?hp) ! (spdhg_y_old ?st1 ! nat i) =
       fn_proximal_conjugate (spdhg_f ?st1 ! nat i)
         (scale (spdhg_sigma ?st1 ! nat i) (direct (spdhg_operator ?st1 ! nat i) (?hp ! spdhg_x ?st1))
            + ?hp ! (spdhg_y_old ?st1 ! nat i))
         (spdhg_sigma ?st1 ! nat i)"
    using n range pnz d lt by (intro dual_step_in_range) (simp_all add: primal_step_length)
  have same: "?hp ! ?yo = h ! ?yo" using d by (simp add: primal_step_other)
  have upd: "SPDHG_update si st h =
      (fst (SPDHG_dual_step ?st1 i ?hp), ?st1, snd (SPDHG_dual_step ?st1 i ?hp))"
    using draw by (simp add: SPDHG_update_def Let_def)
  show ?thesis using dual same unfolding upd by simp
qed

lemma two_block_update_0:
  "snd (snd (SPDHG_update scripted_sampler (two_block_spdhg [0]) two_block_store)) ! 3 = 297 / 199"
  by (simp add: SPDHG_update_def SPDHG_primal_step_def SPDHG_dual_step_def py_index_def
      two_block_spdhg_def two_block_store_def scripted_sampler_def scaling_operator_def
      half_square_def ZeroFunction_def sapyb_def subtract_def add_def fill_def alloc_def Let_def)

lemma two_block_primal_x:
  "SPDHG_primal_step (two_block_spdhg script) two_block_store ! spdhg_x (two_block_spdhg script) = 3"
  by (simp add: SPDHG_primal_step_def two_block_spdhg_def two_block_store_def sapyb_def
      ZeroFunction_def Let_def)

text \<open>
  Claim C1 as stated puts \<open>sigma[i]\<close> on the stored dual variable:
  \<open>y_k = sigma[i] * y_old[i] + K_i(x)\<close>. On the two-block instance right after \<open>set_up\<close>
  (\<open>x = 3\<close>, \<open>y_old[0] = 0\<close>, \<open>sigma[0] = 0.99\<close>, \<open>K_0\<close> the identity) the first \<open>update\<close>
  on block 0 leaves \<open>297/199\<close> in \<open>y_old[0]\<close>, the proximal map at \<open>0.99 * 3 + 0\<close>; the
  claim's formula gives the proximal map at \<open>0.99 * 0 + 3\<close>, which is \<open>300/199\<close>.
\<close>

theorem update_dual_ascent_counterexample:
  "two_block_setup [0] = (Inr (two_block_spdhg [0]), two_block_store) \<and>
   fst (smp_next scripted_sampler (spdhg_sampler (two_block_spdhg [0]))) = Inr 0 \<and>
   snd (snd (SPDHG_update scripted_sampler (two_block_spdhg [0]) two_block_store)) !
      (spdhg_y_old (two_block_spdhg [0]) ! 0) \<noteq>
     fn_proximal_conjugate (spdhg_f (two_block_spdhg [0]) ! 0)
       (scale (spdhg_sigma (two_block_spdhg [0]) ! 0)
            (two_block_store ! (spdhg_y_old (two_block_spdhg [0]) ! 0))
          + direct (spdhg_operator (two_block_spdhg [0]) ! 0)
              (SPDHG_primal_step (two_block_spdhg [0]) two_block_store ! spdhg_x (two_block_spdhg [0])))
       (spdhg_sigma (two_block_spdhg [0]) ! 0)"
proof -
  have a: "snd (snd (SPDHG_update scripted_sampler (two_block_spdhg [0]) two_block_store)) !
      (spdhg_y_old (two_block_spdhg [0]) ! 0) = 297 / 199"
    using two_block_update_0 by (simp add: two_block_spdhg_def)
  have b: "fn_proximal_conjugate (spdhg_f (two_block_spdhg [0]) ! 0)
       (scale (spdhg_sigma (two_block_spdhg [0]) ! 0)
            (two_block_store ! (spdhg_y_old (two_block_spdhg [0]) ! 0))
          + direct (spdhg_operator (two_block_spdhg [0]) ! 0)
              (SPDHG_primal_step (two_block_spdhg [0]) two_block_store ! spdhg_x (two_block_spdhg [0])))
       (spdhg_sigma (two_block_spdhg [0]) ! 0) = 300 / 199"
    unfolding two_block_primal_x
    by (simp add: two_block_spdhg_def two_block_store_def half_square_def scaling_operator_def)
  have c: "fst (smp_next scripted_sampler (spdhg_sampler (two_block_spdhg [0]))) = Inr 0"
    by (simp add: two_block_spdhg_def scripted_sampler_def)
  show ?thesis unfolding a b using two_block_setup_eq[of "[0]"] c by simp
qed

theorem update_dual_ascent_witness:
  "fst (SPDHG_update scripted_sampler (two_block_spdhg [0]) two_block_store) = None \<and>
   snd (snd (SPDHG_update scripted_sampler (two_block_spdhg [0]) two_block_store)) ! 3 = 297 / 199 \<and>
   fn_proximal_conjugate half_square (scale (Number (99 / 100)) (direct (scaling_operator 1) 3) + 0)
     (Number (99 / 100)) = 297 / 199"
proof -
  have c: "fst (smp_next scripted_sampler (spdhg_sampler (two_block_spdhg [0]))) = Inr 0"
    by (simp add: two_block_spdhg_def scripted_sampler_def)
  have r: "0 \<le> (0::int) \<and> (0::int) < int (length (spdhg_operator (two_block_spdhg [0])))"
    by (simp add: two_block_spdhg_def)
  have p: "spdhg_prob_weights (two_block_spdhg [0]) ! nat 0 \<noteq> 0"
    by (simp add: two_block_spdhg_def)
  from update_dual_ascent[OF two_block_wf c r p]
  have "fst (SPDHG_update scripted_sampler (two_block_spdhg [0]) two_block_store) = None" by simp
  moreover have "fn_proximal_conjugate half_square
      (scale (Number (99 / 100)) (direct (scaling_operator 1) 3) + 0) (Number (99 / 100)) = 297 / 199"
    by (simp add: half_square_def scaling_operator_def)
  ultimately show ?thesis using two_block_update_0 by simp
qed

section \<open>The caller's initial container\<close>

lemma frame_refl: "frame b h h"
  by (simp add: frame_def)

lemma frame_trans: "frame b h h1 \<Longrightarrow> frame b h1 h2 \<Longrightarrow> frame b h h2"
  by (simp add: frame_def)

lemma frame_write: "b \<le> a \<Longrightarrow> frame b h (h[a := v])"
  by (simp add: frame_def)

lemma frame_alloc: "b \<le> length h \<Longrightarrow> frame b h (snd (alloc h v))"
  by (simp add: frame_def alloc_def nth_append)

lemma alloc_fresh: "fst (alloc h v) = length h" "length (snd (alloc h v)) = Suc (length h)"
  "snd (alloc h v) ! length h = v"
  by (simp_all add: alloc_def)

lemma frame_length: "frame b h h' \<Longrightarrow> length h \<le> length h'"
  by (simp add: frame_def)

lemma frame_sapyb: "b \<le> out \<Longrightarrow> frame b h (sapyb h s x t y out)"
  by (simp add: sapyb_def frame_write)

lemma frame_subtract: "b \<le> out \<Longrightarrow> frame b h (subtract h x y out)"
  by (simp add: subtract_def frame_write)

lemma frame_add: "b \<le> out \<Longrightarrow> frame b h (add h x y out)"
  by (simp add: add_def frame_write)

lemma frame_fill: "b \<le> x \<Longrightarrow> frame b h (fill h x y)"
  by (simp add: fill_def frame_write)

subsection \<open>ISTA and FISTA write above the base\<close>

lemma frame_gradient_proximal_step:
  assumes "ista_above b st" and "b \<le> pt"
  shows "frame b h (gradient_proximal_step st pt h)"
proof -
  have g: "b \<le> ista_gradient_update st" and x: "b \<le> ista_x st"
    using assms(1) by (simp_all add: ista_above_def)
  let ?h1 = "h[ista_gradient_update st := fn_gradient (ista_f st) (h ! pt)]"
  let ?h2 = "case ista_preconditioner st of None \<Rightarrow> ?h1
     | Some P \<Rightarrow> ?h1[ista_gradient_update st := P ?h1 (?h1 ! ista_gradient_update st)]"
  have f1: "frame b h ?h1" by (rule frame_write[OF g])
  have f2: "frame b ?h1 ?h2"
    using g by (cases "ista_preconditioner st") (simp_all add: frame_def)
  let ?s = "get_step_size (ista_step_size_rule st) ?h2"
  let ?h3 = "sapyb ?h2 pt (Number 1) (ista_gradient_update st) (Number (- ?s)) pt"
  have f3: "frame b ?h2 ?h3" by (rule frame_sapyb[OF assms(2)])
  have f4: "frame b ?h3 (?h3[ista_x st := fn_proximal (ista_g st) (?h3 ! pt) (Number ?s)])"
    by (rule frame_write[OF x])
  have "gradient_proximal_step st pt h = ?h3[ista_x st := fn_proximal (ista_g st) (?h3 ! pt) (Number ?s)]"
    by (simp add: gradient_proximal_step_def Let_def)
  then show ?thesis
    using frame_trans[OF frame_trans[OF frame_trans[OF f1 f2] f3] f4] by simp
qed

lemma frame_ISTA_update: "ista_above b st \<Longrightarrow> frame b h (ISTA_update st h)"
  unfolding ISTA_update_def
  by (rule frame_gradient_proximal_step) (simp_all add: ista_above_def)

lemma ista_above_swap: "ista_above b st \<Longrightarrow> ista_above b (update_previous_solution st)"
  by (simp add: ista_above_def update_previous_solution_def Let_def)

lemma ista_above_objective: "ista_above b st \<Longrightarrow> ista_above b (ISTA_update_objective st h)"
  by (simp add: ista_above_def ISTA_update_objective_def)

lemma frame_ISTA_run: "ista_above b st \<Longrightarrow> frame b h (snd (ISTA_run cs st h))"
proof (induction cs st h rule: ISTA_run.induct)
  case (1 st h)
  then show ?case by (simp add: frame_refl)
next
  case (2 cs st h)
  from frame_trans[OF frame_ISTA_update[OF "2.prems"] "2.IH"[OF "2.prems"]]
  show ?case by simp
next
  case (3 cs st h)
  from "3.IH"[OF ista_above_objective[OF "3.prems"]] show ?case by simp
next
  case (4 cs st h)
  from "4.IH"[OF ista_above_swap[OF "4.prems"]] show ?case by simp
qed

lemma frame_FISTA_update:
  assumes "ista_above b st" and "b \<le> fista_y st"
  shows "frame b h (snd (FISTA_update st h))"
    and "ista_above b (fst (FISTA_update st h))" and "b \<le> fista_y (fst (FISTA_update st h))"
proof -
  let ?st1 = "st\<lparr>fista_t_old := fista_t st\<rparr>"
  have a1: "ista_above b ?st1" "b \<le> fista_y ?st1" using assms by (simp_all add: ista_above_def)
  let ?h1 = "gradient_proximal_step ?st1 (fista_y ?st1) h"
  have f1: "frame b h ?h1" by (rule frame_gradient_proximal_step[OF a1])
  let ?st2 = "?st1\<lparr>fista_t := (1 / 2) * (1 + sqrt (1 + 4 * (fista_t_old ?st1)\<^sup>2))\<rparr>"
  have y2: "b \<le> fista_y ?st2" using assms by simp
  let ?h2 = "subtract ?h1 (ista_x ?st2) (ista_x_old ?st2) (fista_y ?st2)"
  have f2: "frame b ?h1 ?h2" by (rule frame_subtract[OF y2])
  let ?h3 = "sapyb ?h2 (fista_y ?st2) (Number ((fista_t_old ?st2 - 1) / fista_t ?st2)) (ista_x ?st2)
                 (Number 1) (fista_y ?st2)"
  have f3: "frame b ?h2 ?h3" by (rule frame_sapyb[OF y2])
  have e: "FISTA_update st h = (?st2, ?h3)" by (simp add: FISTA_update_def Let_def)
  show "frame b h (snd (FISTA_update st h))"
    using frame_trans[OF frame_trans[OF f1 f2] f3] unfolding e by simp
  show "ista_above b (fst (FISTA_update st h))" using assms unfolding e by (simp add: ista_above_def)
  show "b \<le> fista_y (fst (FISTA_update st h))" using assms unfolding e by simp
qed

lemma frame_FISTA_run:
  "ista_above b st \<Longrightarrow> b \<le> fista_y st \<Longrightarrow> frame b h (snd (FISTA_run cs st h))"
proof (induction cs st h rule: FISTA_run.induct)
  case (1 st h)
  then show ?case by (simp add: frame_refl)
next
  case (2 cs st h)
  note u = frame_FISTA_update[OF "2.prems", of h]
  have "frame b (snd (FISTA_update st h)) (snd (FISTA_run cs (fst (FISTA_update st h)) (snd (FISTA_update st h))))"
    using "2.IH"[OF refl u(2) u(3)] .
  from frame_trans[OF u(1) this] show ?case by (simp add: Let_def)
next
  case (3 cs st h)
  have "b \<le> fista_y (ISTA_update_objective st h)" using "3.prems" by (simp add: ISTA_update_objective_def)
  from "3.IH"[OF ista_above_objective[OF "3.prems"(1)] this] show ?case by simp
next
  case (4 cs st h)
  have "b \<le> fista_y (update_previous_solution st)"
    using "4.prems" by (simp add: update_previous_solution_def Let_def)
  from "4.IH"[OF ista_above_swap[OF "4.prems"(1)] this] show ?case by simp
qed

lemma ISTA_set_up_copies:
  assumes "ISTA_set_up cls a f g step_size rule pc h0 = (Inr st, h1)" and "a < length h0"
  shows "ista_above (length h0) st" and "frame (length h0) h0 h1"
    and "h1 ! ista_x st = h0 ! a" and "h1 ! ista_x_old st = h0 ! a"
    and "h1 ! ista_gradient_update st = h0 ! a"
    and "ista_initial st = a"
proof -
  have h1: "h1 = h0 @ [h0 ! a, h0 ! a, h0 ! a]"
    using assms by (auto simp: ISTA_set_up_def copy_def alloc_def Let_def nth_append split: if_splits sum.splits)
  have st: "ista_x_old st = length h0" "ista_x st = Suc (length h0)"
    "ista_gradient_update st = Suc (Suc (length h0))" "ista_initial st = a"
    using assms by (auto simp: ISTA_set_up_def copy_def alloc_def Let_def split: if_splits sum.splits)
  show "ista_above (length h0) st" using st by (simp add: ista_above_def)
  show "frame (length h0) h0 h1" unfolding h1 by (simp add: frame_def nth_append)
  show "h1 ! ista_x st = h0 ! a" "h1 ! ista_x_old st = h0 ! a"
    "h1 ! ista_gradient_update st = h0 ! a" "ista_initial st = a"
    unfolding h1 st by (simp_all add: nth_append)
qed

lemma frame_mono: "b \<le> b' \<Longrightarrow> frame b' h h' \<Longrightarrow> frame b h h'"
  by (simp add: frame_def)

lemma ista_above_mono: "b \<le> b' \<Longrightarrow> ista_above b' st \<Longrightarrow> ista_above b st"
  by (simp add: ista_above_def)

lemma FISTA_init_copies:
  assumes "FISTA_init a f g step_size rule pc h0 = (Inr st, h1)" and "a < length h0"
  shows "ista_above (length h0) st" and "length h0 \<le> fista_y st" and "frame (length h0) h0 h1"
    and "h1 ! ista_x st = h0 ! a" and "h1 ! ista_x_old st = h0 ! a" and "h1 ! fista_y st = h0 ! a"
proof -
  let ?h = "snd (copy h0 a)"
  have h: "?h = h0 @ [h0 ! a]" by (simp add: copy_def alloc_def)
  obtain r hh where r: "ISTA_set_up FISTA_class a f g step_size rule pc ?h = (r, hh)"
    by (cases "ISTA_set_up FISTA_class a f g step_size rule pc ?h")
  from assms(1) r obtain st0 where st0: "r = Inr st0" "h1 = hh"
    "st = ISTA.extend st0 (FISTA.fields (fst (copy h0 a)) 1 0)"
    by (cases r) (auto simp: FISTA_init_def Let_def)
  have a': "a < length ?h" using assms(2) h by simp
  note c = ISTA_set_up_copies[OF r[unfolded st0(1)] a']
  have y: "fista_y st = length h0" unfolding st0(3) by (simp add: ISTA.defs FISTA.defs copy_def alloc_def)
  have sel: "ista_x st = ista_x st0" "ista_x_old st = ista_x_old st0"
    "ista_gradient_update st = ista_gradient_update st0"
    unfolding st0(3) by (simp_all add: ISTA.defs FISTA.defs)
  have le: "length h0 \<le> length ?h" using h by simp
  have ab: "ista_above (length h0) st0" by (rule ista_above_mono[OF le c(1)])
  show "ista_above (length h0) st" using ab sel by (simp add: ista_above_def)
  show "length h0 \<le> fista_y st" using y by simp
  have f0: "frame (length h0) h0 ?h" unfolding h by (simp add: frame_def nth_append)
  show fr: "frame (length h0) h0 h1"
    using frame_trans[OF f0 frame_mono[OF le c(2)]] st0(2) by simp
  have ha: "?h ! a = h0 ! a" using assms(2) h by (simp add: nth_append)
  show "h1 ! ista_x st = h0 ! a" "h1 ! ista_x_old st = h0 ! a"
    using c(3,4) sel ha st0(2) by simp_all
  have "hh ! length h0 = ?h ! length h0"
    using c(2) by (simp add: frame_def h)
  then show "h1 ! fista_y st = h0 ! a" unfolding y st0(2) h by simp
qed

lemma py_index_mem: "py_index xs i = Inr x \<Longrightarrow> x \<in> set xs"
  by (auto simp: py_index_def split: if_splits)

lemma frame_primal_step: "spdhg_above b st \<Longrightarrow> frame b h (SPDHG_primal_step st h)"
  by (simp add: SPDHG_primal_step_def sapyb_def Let_def frame_def spdhg_above_def)

lemma frame_dual_step:
  assumes "spdhg_above b st" and "b \<le> length h"
  shows "frame b h (snd (SPDHG_dual_step st i h))"
  using assms
  by (auto simp: SPDHG_dual_step_def Let_def frame_def alloc_def sapyb_def subtract_def add_def
      fill_def nth_append spdhg_above_def list_all_iff split: sum.splits dest!: py_index_mem)

lemma frame_SPDHG_update:
  assumes "spdhg_above b st" and "b \<le> length h"
  shows "frame b h (snd (snd (SPDHG_update si st h)))"
    and "spdhg_above b (fst (snd (SPDHG_update si st h)))"
proof -
  let ?hp = "SPDHG_primal_step st h"
  let ?st1 = "st\<lparr>spdhg_sampler := snd (smp_next si (spdhg_sampler st))\<rparr>"
  have ab: "spdhg_above b ?st1" using assms(1) by (simp add: spdhg_above_def)
  have f1: "frame b h ?hp" by (rule frame_primal_step[OF assms(1)])
  have le: "b \<le> length ?hp" using assms(2) by (simp add: primal_step_length)
  have f2: "frame b ?hp (snd (SPDHG_dual_step ?st1 i ?hp))" for i
    by (rule frame_dual_step[OF ab le])
  show "frame b h (snd (snd (SPDHG_update si st h)))"
  proof (cases "fst (smp_next si (spdhg_sampler st))")
    case (Inl e)
    then show ?thesis using f1 by (simp add: SPDHG_update_def Let_def)
  next
    case (Inr i)
    then show ?thesis using frame_trans[OF f1 f2[of i]] by (simp add: SPDHG_update_def Let_def)
  qed
  show "spdhg_above b (fst (snd (SPDHG_update si st h)))"
    using ab by (cases "fst (smp_next si (spdhg_sampler st))") (simp_all add: SPDHG_update_def Let_def)
qed

lemma frame_SPDHG_update_objective:
  assumes "spdhg_above b st" and "b \<le> length h"
  shows "frame b h (snd (snd (SPDHG_update_objective st h)))"
    and "spdhg_above b (fst (snd (SPDHG_update_objective st h)))"
  using assms
  by (simp_all add: SPDHG_update_objective_def Let_def frame_def alloc_def nth_append spdhg_above_def)

lemma frame_SPDHG_run:
  "spdhg_above b st \<Longrightarrow> b \<le> length h \<Longrightarrow> frame b h (snd (SPDHG_run si cs st h))"
proof (induction si cs st h rule: SPDHG_run.induct)
  case (1 si st h)
  then show ?case by (simp add: frame_refl)
next
  case (2 si cs st h)
  note u = frame_SPDHG_update[OF "2.prems", of si]
  have le: "b \<le> length (snd (snd (SPDHG_update si st h)))"
    using frame_length[OF u(1)] "2.prems"(2) by simp
  from frame_trans[OF u(1) "2.IH"[OF refl u(2) le]] show ?case by (simp add: Let_def)
next
  case (3 si cs st h)
  note u = frame_SPDHG_update_objective[OF "3.prems"]
  have le: "b \<le> length (snd (snd (SPDHG_update_objective st h)))"
    using frame_length[OF u(1)] "3.prems"(2) by simp
  from frame_trans[OF u(1) "3.IH"[OF refl u(2) le]] show ?case by (simp add: Let_def)
next
  case (4 si cs st h)
  then show ?case by simp
qed

lemma alloc_zeros_eq:
  "alloc_zeros h k = (map (\<lambda>j. length h + j) [0..<k], h @ replicate k 0)"
proof (induction k arbitrary: h)
  case 0
  then show ?case by simp
next
  case (Suc k)
  have "map (\<lambda>j. length h + j) [0..<Suc k] = length h # map (\<lambda>j. Suc (length h) + j) [0..<k]"
    by (simp add: upt_conv_Cons map_Suc_upt[symmetric] del: upt_Suc)
  then show ?case
    using Suc.IH[of "h @ [0]"] by (simp add: alloc_def Let_def replicate_app_Cons_same)
qed

lemma SPDHG_set_up_copies:
  assumes "SPDHG_set_up si F G K sigma tau initial smp pw h0 = (Inr st, h1)"
    and "case initial of None \<Rightarrow> True | Some a \<Rightarrow> a < length h0"
  shows "spdhg_above (length h0) st" and "frame (length h0) h0 h1"
    and "h1 ! spdhg_x st = (case initial of None \<Rightarrow> 0 | Some a \<Rightarrow> h0 ! a)"
    and "spdhg_x st = length h0"
proof -
  let ?v = "case initial of None \<Rightarrow> 0 | Some a \<Rightarrow> h0 ! a"
  let ?n = "length K"
  have rx: "(case initial of None \<Rightarrow> alloc h0 0 | Some a \<Rightarrow> copy h0 a) = (length h0, h0 @ [?v])"
    by (cases initial) (simp_all add: alloc_def copy_def)
  have st: "spdhg_x st = length h0 \<and> spdhg_x_tmp st = Suc (length h0) \<and>
      spdhg_y_old st = map (\<lambda>j. Suc (Suc (length h0)) + j) [0..<?n] \<and>
      spdhg_z st = Suc (Suc (length h0)) + ?n \<and> spdhg_zbar st = Suc (Suc (Suc (length h0))) + ?n \<and>
      h1 = h0 @ [?v] @ [0] @ replicate ?n 0 @ [0] @ [0]"
    using assms(1) unfolding SPDHG_set_up_def Let_def rx
    by (auto simp: alloc_def alloc_zeros_eq split: if_splits sum.splits)
  show "spdhg_above (length h0) st"
    using st by (simp add: spdhg_above_def list_all_iff)
  show "frame (length h0) h0 h1" using st by (simp add: frame_def nth_append)
  show "h1 ! spdhg_x st = ?v" using st by (simp add: nth_append)
  show "spdhg_x st = length h0" using st by simp
qed

text \<open>
  Claim C10. Let \<open>initial\<close> be a container of the store. The constructors of ISTA and of
  FISTA, which run \<open>set_up\<close>, and \<open>SPDHG.set_up\<close> make new objects holding the content of
  \<open>initial\<close> for the iterates (\<open>x\<close>, \<open>x_old\<close>, \<open>y\<close>), and SPDHG makes a new zero container
  when \<open>initial\<close> is None. After \<open>set_up\<close> and any sequence of \<open>update\<close>,
  \<open>update_objective\<close> and \<open>_update_previous_solution\<close> calls, every object that existed
  before \<open>set_up\<close>, the caller's \<open>initial\<close> among them, holds the content it had. The
  collaborators write only to the \<open>out\<close> container they are given.
\<close>

theorem initial_never_mutated:
  fixes h0 :: "'v::real_algebra store" and si :: "'s sampler_iface"
  assumes a: "a < length h0"
  shows
   "(\<forall>st h1. ISTA_init a f g step_size rule pc h0 = (Inr st, h1) \<longrightarrow>
        length h0 \<le> ista_x st \<and> length h0 \<le> ista_x_old st \<and>
        length h0 \<le> ista_gradient_update st \<and>
        h1 ! ista_x st = h0 ! a \<and> h1 ! ista_x_old st = h0 ! a \<and>
        (\<forall>cs b. b < length h0 \<longrightarrow> snd (ISTA_run cs st h1) ! b = h0 ! b)) \<and>
    (\<forall>st h1. FISTA_init a f g step_size rule pc h0 = (Inr st, h1) \<longrightarrow>
        length h0 \<le> ista_x st \<and> length h0 \<le> ista_x_old st \<and>
        length h0 \<le> ista_gradient_update st \<and> length h0 \<le> fista_y st \<and>
        h1 ! ista_x st = h0 ! a \<and> h1 ! ista_x_old st = h0 ! a \<and> h1 ! fista_y st = h0 ! a \<and>
        (\<forall>cs b. b < length h0 \<longrightarrow> snd (FISTA_run cs st h1) ! b = h0 ! b)) \<and>
    (\<forall>st h1. SPDHG_set_up si F G K sigma tau (Some a) smp pw h0 = (Inr st, h1) \<longrightarrow>
        length h0 \<le> spdhg_x st \<and> h1 ! spdhg_x st = h0 ! a \<and>
        (\<forall>cs b. b < length h0 \<longrightarrow> snd (SPDHG_run si cs st h1) ! b = h0 ! b)) \<and>
    (\<forall>st h1. SPDHG_set_up si F G K sigma tau None smp pw h0 = (Inr st, h1) \<longrightarrow>
        length h0 \<le> spdhg_x st \<and> h1 ! spdhg_x st = 0)"
proof (intro conjI allI impI)
  fix st :: "'v ISTA" and h1
  assume s: "ISTA_init a f g step_size rule pc h0 = (Inr st, h1)"
  note c = ISTA_set_up_copies[OF s[unfolded ISTA_init_def] a]
  show "length h0 \<le> ista_x st" "length h0 \<le> ista_x_old st" "length h0 \<le> ista_gradient_update st"
    using c(1) by (simp_all add: ista_above_def)
  show "h1 ! ista_x st = h0 ! a" "h1 ! ista_x_old st = h0 ! a" using c(3,4) by simp_all
  fix cs b assume b: "b < length h0"
  have "frame (length h0) h0 (snd (ISTA_run cs st h1))"
    by (rule frame_trans[OF c(2) frame_ISTA_run[OF c(1)]])
  then show "snd (ISTA_run cs st h1) ! b = h0 ! b" using b by (simp add: frame_def)
next
  fix st :: "'v FISTA" and h1
  assume s: "FISTA_init a f g step_size rule pc h0 = (Inr st, h1)"
  note c = FISTA_init_copies[OF s a]
  show "length h0 \<le> ista_x st" "length h0 \<le> ista_x_old st" "length h0 \<le> ista_gradient_update st"
    using c(1) by (simp_all add: ista_above_def)
  show "length h0 \<le> fista_y st" by (rule c(2))
  show "h1 ! ista_x st = h0 ! a" "h1 ! ista_x_old st = h0 ! a" "h1 ! fista_y st = h0 ! a"
    using c(4,5,6) by simp_all
  fix cs b assume b: "b < length h0"
  have "frame (length h0) h0 (snd (FISTA_run cs st h1))"
    by (rule frame_trans[OF c(3) frame_FISTA_run[OF c(1) c(2)]])
  then show "snd (FISTA_run cs st h1) ! b = h0 ! b" using b by (simp add: frame_def)
next
  fix st :: "('v, 's) SPDHG" and h1
  assume s: "SPDHG_set_up si F G K sigma tau (Some a) smp pw h0 = (Inr st, h1)"
  have i: "case Some a of None \<Rightarrow> True | Some a \<Rightarrow> a < length h0" using a by simp
  note c = SPDHG_set_up_copies[OF s i]
  show "length h0 \<le> spdhg_x st" using c(4) by simp
  show "h1 ! spdhg_x st = h0 ! a" using c(3) by simp
  fix cs b assume b: "b < length h0"
  have le: "length h0 \<le> length h1" by (rule frame_length[OF c(2)])
  have "frame (length h0) h0 (snd (SPDHG_run si cs st h1))"
    by (rule frame_trans[OF c(2) frame_SPDHG_run[OF c(1) le]])
  then show "snd (SPDHG_run si cs st h1) ! b = h0 ! b" using b by (simp add: frame_def)
next
  fix st :: "('v, 's) SPDHG" and h1
  assume s: "SPDHG_set_up si F G K sigma tau None smp pw h0 = (Inr st, h1)"
  have i: "case None of None \<Rightarrow> True | Some a \<Rightarrow> a < length h0" by simp
  note c = SPDHG_set_up_copies[OF s i]
  show "length h0 \<le> spdhg_x st" using c(4) by simp
  show "h1 ! spdhg_x st = 0" using c(3) by simp
qed

lemma test_ista_init:
  "ISTA_init 0 (Some half_square) None None None None [3] = (Inr test_ista, [3, 3, 3, 3])"
  by (simp add: ISTA_init_def ISTA_set_up_def calculate_default_step_size_def copy_def alloc_def
      half_square_def ZeroFunction_def test_ista_def Let_def)

lemma test_fista_init:
  "FISTA_init 0 (Some half_square) None None None None [3] = (Inr test_fista, [3, 3, 3, 3, 3])"
  by (simp add: FISTA_init_def ISTA_set_up_def calculate_default_step_size_def copy_def alloc_def
      half_square_def ZeroFunction_def test_fista_def Let_def ISTA.defs FISTA.defs)

theorem initial_never_mutated_witness:
  "ISTA_init 0 (Some half_square) None None None None [3] = (Inr test_ista, [3, 3, 3, 3]) \<and>
   snd (ISTA_run [Update, UpdateObjective, UpdatePreviousSolution, Update] test_ista [3, 3, 3, 3]) ! 0 = 3 \<and>
   FISTA_init 0 (Some half_square) None None None None [3] = (Inr test_fista, [3, 3, 3, 3, 3]) \<and>
   snd (FISTA_run [Update, UpdateObjective, Update] test_fista [3, 3, 3, 3, 3]) ! 0 = 3 \<and>
   two_block_setup [0, 1] = (Inr (two_block_spdhg [0, 1]), two_block_store) \<and>
   snd (SPDHG_run scripted_sampler [Update, UpdateObjective, Update]
          (two_block_spdhg [0, 1]) two_block_store) ! 0 = 3"
proof -
  have a: "(0::nat) < length [3::real]" by simp
  note inst = initial_never_mutated[OF a, of "Some half_square" None None None None
      scripted_sampler "[half_square, half_square]" ZeroFunction
      "[scaling_operator 1, scaling_operator 2]" None None "Some [0, 1]" None]
  have s: "SPDHG_set_up scripted_sampler [half_square, half_square] ZeroFunction
       [scaling_operator 1, scaling_operator 2] None None (Some 0) (Some [0, 1]) None [3] =
       (Inr (two_block_spdhg [0, 1]), two_block_store)"
    using two_block_setup_eq[of "[0, 1]"] by (simp add: two_block_setup_def)
  note i1 = inst[THEN conjunct1, rule_format, OF test_ista_init]
  note i1' = i1[THEN conjunct2, THEN conjunct2, THEN conjunct2, THEN conjunct2, THEN conjunct2,
      rule_format]
  have 1: "snd (ISTA_run [Update, UpdateObjective, UpdatePreviousSolution, Update] test_ista [3, 3, 3, 3]) ! 0 = 3"
    using i1'[of 0 "[Update, UpdateObjective, UpdatePreviousSolution, Update]"] by simp
  note i2 = inst[THEN conjunct2, THEN conjunct1, rule_format, OF test_fista_init]
  note i2' = i2[THEN conjunct2, THEN conjunct2, THEN conjunct2, THEN conjunct2, THEN conjunct2,
      THEN conjunct2, THEN conjunct2, rule_format]
  have 2: "snd (FISTA_run [Update, UpdateObjective, Update] test_fista [3, 3, 3, 3, 3]) ! 0 = 3"
    using i2'[of 0 "[Update, UpdateObjective, Update]"] by simp
  note i3 = inst[THEN conjunct2, THEN conjunct2, THEN conjunct1, rule_format, OF s]
  note i3' = i3[THEN conjunct2, THEN conjunct2, rule_format]
  have 3: "snd (SPDHG_run scripted_sampler [Update, UpdateObjective, Update]
          (two_block_spdhg [0, 1]) two_block_store) ! 0 = 3"
    using i3'[of 0 "[Update, UpdateObjective, Update]"] by simp
  show ?thesis using 1 2 3 test_ista_init test_fista_init two_block_setup_eq[of "[0, 1]"] by simp
qed

subsection \<open>The containers of a configured SPDHG instance are distinct objects\<close>

lemma resolve_tau_fields:
  assumes "resolve_tau gamma rho tau st = Inr st'"
  shows "st' = st\<lparr>spdhg_tau := spdhg_tau st'\<rparr>"
  using assms by (auto simp: resolve_tau_def split: option.splits sum.splits if_splits)

lemma set_step_sizes_fields:
  assumes "set_step_sizes sigma tau st = Inr st'"
  shows "st' = st\<lparr>spdhg_sigma := spdhg_sigma st', spdhg_tau := spdhg_tau st'\<rparr>"
proof -
  from assms obtain sg where r: "resolve_tau 1 (99 / 100) tau (st\<lparr>spdhg_sigma := sg\<rparr>) = Inr st'"
    by (auto simp: set_step_sizes_def Let_def split: option.splits sum.splits if_splits pyval.splits)
  from resolve_tau_fields[OF r] have e: "st' = st\<lparr>spdhg_sigma := sg, spdhg_tau := spdhg_tau st'\<rparr>"
    by simp
  have "spdhg_sigma st' = spdhg_sigma (st\<lparr>spdhg_sigma := sg, spdhg_tau := spdhg_tau st'\<rparr>)"
    using e by simp
  then have "spdhg_sigma st' = sg" by simp
  then show ?thesis using e by simp
qed

lemma set_step_sizes_sigma_length:
  assumes s: "set_step_sizes sigma tau st = Inr st'"
    and n: "spdhg_ndual_subsets st = int (length (spdhg_norms st))"
    and p: "length (spdhg_prob_weights st) = length (spdhg_norms st)"
  shows "length (spdhg_sigma st') = length (spdhg_norms st)"
proof -
  from s obtain sg where r: "resolve_tau 1 (99 / 100) tau (st\<lparr>spdhg_sigma := sg\<rparr>) = Inr st'"
    and l: "length sg = length (spdhg_norms st)"
    using n p
    by (auto simp: set_step_sizes_def sigma_from_norms_def sigma_from_tau_def Let_def
        split: option.splits sum.splits if_splits pyval.splits)
  from resolve_tau_fields[OF r]
  have "spdhg_sigma st' = spdhg_sigma (st\<lparr>spdhg_sigma := sg, spdhg_tau := spdhg_tau st'\<rparr>)"
    by simp
  then show ?thesis using l by simp
qed

lemma SPDHG_set_up_layout:
  assumes "SPDHG_set_up si F G K sigma tau initial smp pw h0 = (Inr st, h1)"
  shows "spdhg_x st = length h0 \<and> spdhg_x_tmp st = Suc (length h0) \<and>
      spdhg_y_old st = map (\<lambda>j. Suc (Suc (length h0)) + j) [0..<length K] \<and>
      spdhg_z st = Suc (Suc (length h0)) + length K \<and>
      spdhg_zbar st = Suc (Suc (Suc (length h0))) + length K \<and>
      h1 = h0 @ [case initial of None \<Rightarrow> 0 | Some a \<Rightarrow> h0 ! a] @ [0] @ replicate (length K) 0 @ [0] @ [0]"
proof -
  let ?v = "case initial of None \<Rightarrow> 0 | Some a \<Rightarrow> h0 ! a"
  have rx: "(case initial of None \<Rightarrow> alloc h0 0 | Some a \<Rightarrow> copy h0 a) = (length h0, h0 @ [?v])"
    by (cases initial) (simp_all add: alloc_def copy_def)
  show ?thesis
    using assms unfolding SPDHG_set_up_def Let_def rx
    by (auto simp: alloc_def alloc_zeros_eq split: if_splits sum.splits)
qed

lemma set_step_sizes_keeps:
  assumes s: "set_step_sizes sigma tau st = Inr st'"
  shows "spdhg_f st' = spdhg_f st \<and> spdhg_g st' = spdhg_g st \<and>
      spdhg_operator st' = spdhg_operator st \<and> spdhg_norms st' = spdhg_norms st \<and>
      spdhg_ndual_subsets st' = spdhg_ndual_subsets st \<and>
      spdhg_prob_weights st' = spdhg_prob_weights st \<and>
      (spdhg_ndual_subsets st = int (length (spdhg_norms st)) \<longrightarrow>
       length (spdhg_prob_weights st) = length (spdhg_norms st) \<longrightarrow>
       length (spdhg_sigma st') = length (spdhg_norms st))"
proof -
  note f = set_step_sizes_fields[OF s]
  have same: "spdhg_f st' = spdhg_f st" "spdhg_g st' = spdhg_g st"
    "spdhg_operator st' = spdhg_operator st" "spdhg_norms st' = spdhg_norms st"
    "spdhg_ndual_subsets st' = spdhg_ndual_subsets st"
    "spdhg_prob_weights st' = spdhg_prob_weights st"
    by (subst f, simp)+
  show ?thesis using same set_step_sizes_sigma_length[OF s] by simp
qed

lemma SPDHG_set_up_config:
  assumes "SPDHG_set_up si F G K sigma tau initial smp pw h0 = (Inr st, h1)"
  shows "spdhg_f st = F \<and> spdhg_g st = G \<and> spdhg_operator st = K \<and>
      spdhg_norms st = map op_norm K \<and> spdhg_ndual_subsets st = int (length K) \<and>
      (length (spdhg_prob_weights st) = length K \<longrightarrow> length (spdhg_sigma st) = length K)"
  using assms unfolding SPDHG_set_up_def Let_def
  by (auto split: if_splits sum.splits dest!: set_step_sizes_keeps)

lemma SPDHG_set_up_wf:
  assumes s: "SPDHG_set_up si F G K sigma tau initial smp pw h0 = (Inr st, h1)"
    and F: "length F = length K" and p: "length (spdhg_prob_weights st) = length K"
  shows "spdhg_wf st h1"
proof -
  note l = SPDHG_set_up_layout[OF s]
  note c = SPDHG_set_up_config[OF s]
  have d: "distinct (map (\<lambda>j. Suc (Suc (length h0)) + j) [0..<length K])"
    by (simp add: distinct_map inj_on_def)
  show ?thesis
    unfolding spdhg_wf_def using l c F p d
    by (auto simp: list_all_iff)
qed

lemma SPDHG_update_wf:
  assumes "spdhg_wf st h"
  shows "spdhg_wf (fst (snd (SPDHG_update si st h))) (snd (snd (SPDHG_update si st h)))"
proof -
  have ab: "spdhg_above 0 st" by (simp add: spdhg_above_def list_all_iff)
  have "length h \<le> length (snd (snd (SPDHG_update si st h)))"
    using frame_SPDHG_update(1)[OF ab, of h si] by (simp add: frame_def)
  moreover have "fst (snd (SPDHG_update si st h)) =
      st\<lparr>spdhg_sampler := snd (smp_next si (spdhg_sampler st))\<rparr>"
    by (cases "fst (smp_next si (spdhg_sampler st))") (simp_all add: SPDHG_update_def Let_def)
  ultimately show ?thesis
    using assms by (auto simp: spdhg_wf_def list_all_iff)
qed

end
